theory Spec2Isabelle
  imports Complex_Main "HOL-Library.Multiset" "HOL-Library.AList"
begin

section \<open>The nuScenes-SR dataloader\<close>

text \<open>
  A shallow embedding of \<^verbatim>\<open>NuScenesSRDataloader\<close> (dataloader.py). A Python
  \<^verbatim>\<open>dict\<close> keeps its keys in insertion order, so it is an association list
  whose keys are distinct; \<^verbatim>\<open>dict.items()\<close> is the list itself. Exceptions are
  values: every method that can raise returns \<open>error + result\<close>.
\<close>

subsection \<open>Data model\<close>

record scene =
  labels :: "string list"
  description :: string

type_synonym ('k, 'v) pydict = "('k \<times> 'v) list"

datatype error = ValueError string | KeyError string | OverflowError string

record loader =
  data :: "(string, scene) pydict"
  scene_tokens :: "string list"

definition DYNAMIC_SCENES :: "string list" where
  "DYNAMIC_SCENES =
     [''PED_CROSSING'', ''LEFT_TURN'', ''RIGHT_TURN'', ''CONSTRUCTION_VEHICLE'',
      ''AVOID_STATIONARY'']"

definition STATIC_SCENES :: "string list" where
  "STATIC_SCENES =
     [''INTERSECTION'', ''PARKING_LOT'', ''TRAFFIC_LIGHT'', ''RAINY_WEATHER'',
      ''CONSTRUCTION_ZONE'']"

definition ALL_SCENES :: "string list" where
  "ALL_SCENES = DYNAMIC_SCENES @ STATIC_SCENES"

text \<open>
  \<^verbatim>\<open>__init__\<close>: \<^verbatim>\<open>self.data\<close> is the dict read from the JSON document (reading
  the file is outside the model) and \<^verbatim>\<open>self.scene_tokens = list(self.data.keys())\<close>.
\<close>

definition init :: "(string, scene) pydict \<Rightarrow> loader" where
  "init d = \<lparr>data = d, scene_tokens = map fst d\<rparr>"

text \<open>What \<^verbatim>\<open>json.load\<close> returns is a dict: no key occurs twice.\<close>

definition is_dict :: "('k, 'v) pydict \<Rightarrow> bool" where
  "is_dict d = distinct (map fst d)"

text \<open>\<^verbatim>\<open>self.data.get(scene_token)\<close>.\<close>

definition get_scene_data :: "loader \<Rightarrow> string \<Rightarrow> scene option" where
  "get_scene_data L scene_token = map_of (data L) scene_token"

subsection \<open>Label queries\<close>

text \<open>
  The message of the \<^verbatim>\<open>ValueError\<close> is the f-string
  \<^verbatim>\<open>f"Invalid label: {label}. Must be one of {self.ALL_SCENES}"\<close>. A list of strings
  prints as its \<^verbatim>\<open>repr\<close>: the elements in single quotes, separated by a comma and
  a space, in square brackets (no element of \<^verbatim>\<open>ALL_SCENES\<close> needs escaping).
\<close>

fun join :: "string \<Rightarrow> string list \<Rightarrow> string" where
  "join sep [] = []"
| "join sep [x] = x"
| "join sep (x # y # ys) = x @ sep @ join sep (y # ys)"

definition repr_str :: "string \<Rightarrow> string" where
  "repr_str s = [CHR 0x27] @ s @ [CHR 0x27]"

definition repr_list :: "string list \<Rightarrow> string" where
  "repr_list xs = ''['' @ join '', '' (map repr_str xs) @ '']''"

definition invalid_label :: "string \<Rightarrow> error" where
  "invalid_label label =
     ValueError (''Invalid label: '' @ label @ ''. Must be one of '' @ repr_list ALL_SCENES)"

definition get_scenes_by_label :: "loader \<Rightarrow> string \<Rightarrow> error + (string \<times> scene) list" where
  "get_scenes_by_label L label =
     (if label \<notin> set ALL_SCENES then Inl (invalid_label label)
      else Inr (filter (\<lambda>(token, d). label \<in> set (labels d)) (data L)))"

text \<open>
  \<^verbatim>\<open>get_scenes_by_labels\<close>: the first loop raises at the first label outside
  \<^verbatim>\<open>ALL_SCENES\<close>; the second keeps a scene when the \<^verbatim>\<open>if\<close> or the
  \<^verbatim>\<open>elif\<close> holds. A set is true in a condition when it is not empty.
\<close>

definition scene_matches :: "string list \<Rightarrow> string \<Rightarrow> scene \<Rightarrow> bool" where
  "scene_matches target mode d =
     (let scene_labels = set (labels d); target_labels = set target
      in if mode = ''any'' \<and> scene_labels \<inter> target_labels \<noteq> {} then True
         else if mode = ''all'' \<and> target_labels \<subseteq> scene_labels then True
         else False)"

definition get_scenes_by_labels ::
  "loader \<Rightarrow> string list \<Rightarrow> string \<Rightarrow> error + (string \<times> scene) list" where
  "get_scenes_by_labels L target mode =
     (case find (\<lambda>label. label \<notin> set ALL_SCENES) target of
        Some label \<Rightarrow> Inl (invalid_label label)
      | None \<Rightarrow> Inr (filter (\<lambda>(token, d). scene_matches target mode d) (data L)))"

definition get_dynamic_scenes :: "loader \<Rightarrow> error + (string \<times> scene) list" where
  "get_dynamic_scenes L = get_scenes_by_labels L DYNAMIC_SCENES ''any''"

definition get_static_scenes :: "loader \<Rightarrow> error + (string \<times> scene) list" where
  "get_static_scenes L = get_scenes_by_labels L STATIC_SCENES ''any''"

subsection \<open>Statistics\<close>

text \<open>
  A \<^verbatim>\<open>Counter\<close> is a dict whose missing keys read as 0; \<^verbatim>\<open>c[k] += 1\<close> stores
  the old count plus one, under a new key at the end when \<open>k\<close> is new. A dict assignment
  \<^verbatim>\<open>d[k] = v\<close> is \<^const>\<open>AList.update\<close>: it replaces the value of an existing key in
  place and appends a new key.
\<close>

definition counter_get :: "('k, int) pydict \<Rightarrow> 'k \<Rightarrow> int" where
  "counter_get c k = (case map_of c k of None \<Rightarrow> 0 | Some v \<Rightarrow> v)"

definition counter_incr :: "('k, int) pydict \<Rightarrow> 'k \<Rightarrow> ('k, int) pydict" where
  "counter_incr c k = AList.update k (counter_get c k + 1) c"

definition get_label_statistics :: "loader \<Rightarrow> (string, int) pydict" where
  "get_label_statistics L =
     foldl (\<lambda>label_counts d. foldl counter_incr label_counts (labels d)) [] (map snd (data L))"

definition get_multi_label_statistics :: "loader \<Rightarrow> (int, int) pydict" where
  "get_multi_label_statistics L =
     foldl (\<lambda>multi_label_counts d.
              let num_labels = int (length (labels d))
              in counter_incr multi_label_counts num_labels)
       [] (map snd (data L))"

subsection \<open>The random module\<close>

text \<open>
  \<^verbatim>\<open>random.seed\<close>, \<^verbatim>\<open>random.shuffle\<close> and \<^verbatim>\<open>random.sample\<close> belong to
  Python's library, not to this repository, so the generator is a parameter of the
  model: a state of some type \<open>'s\<close>, the state \<^verbatim>\<open>seed(a)\<close> sets, and the choices
  the library makes from a state. \<open>shuffle xs g\<close> is the list \<^verbatim>\<open>random.shuffle\<close>
  leaves in place of \<open>xs\<close> and \<open>draw xs k g\<close> the \<open>k\<close> items \<^verbatim>\<open>random.sample\<close>
  selects, each with the generator's next state. The module's generator is global:
  every method takes its state and returns the new one.
\<close>

record 's random_module =
  seed :: "int \<Rightarrow> 's"
  shuffle :: "string list \<Rightarrow> 's \<Rightarrow> string list \<times> 's"
  draw :: "string list \<Rightarrow> nat \<Rightarrow> 's \<Rightarrow> string list \<times> 's"

text \<open>
  What the library promises: a shuffle permutes the list, and a sample of \<open>k\<close> items
  takes them at \<open>k\<close> different positions of the population.
\<close>

definition random_ok :: "'s random_module \<Rightarrow> bool" where
  "random_ok R \<longleftrightarrow>
     (\<forall>xs g. mset (fst (shuffle R xs g)) = mset xs) \<and>
     (\<forall>xs k g. k \<le> length xs \<longrightarrow>
        length (fst (draw R xs k g)) = k \<and> mset (fst (draw R xs k g)) \<subseteq># mset xs)"

text \<open>\<^verbatim>\<open>if random_seed is not None: random.seed(random_seed)\<close>.\<close>

definition reseed :: "'s random_module \<Rightarrow> int option \<Rightarrow> 's \<Rightarrow> 's" where
  "reseed R random_seed g = (case random_seed of None \<Rightarrow> g | Some a \<Rightarrow> seed R a)"

text \<open>
  \<^verbatim>\<open>random.sample(population, k)\<close> checks its argument before it draws:
  \<^verbatim>\<open>if not 0 <= k <= n: raise ValueError(...)\<close>.
\<close>

definition random_sample ::
  "'s random_module \<Rightarrow> string list \<Rightarrow> int \<Rightarrow> 's \<Rightarrow> (error + string list) \<times> 's" where
  "random_sample R population k g =
     (if \<not> (0 \<le> k \<and> k \<le> int (length population))
      then (Inl (ValueError ''Sample larger than population or is negative''), g)
      else case draw R population (nat k) g of (ys, g') \<Rightarrow> (Inr ys, g'))"

subsection \<open>Sampler\<close>

text \<open>
  The comprehension \<^verbatim>\<open>[(token, self.data[token]) for token in sample_tokens]\<close>;
  \<^verbatim>\<open>self.data[token]\<close> raises \<^verbatim>\<open>KeyError\<close> for a token that is no key.
\<close>

fun with_data :: "(string, scene) pydict \<Rightarrow> string list \<Rightarrow> error + (string \<times> scene) list" where
  "with_data d [] = Inr []"
| "with_data d (token # ts) =
     (case map_of d token of
        None \<Rightarrow> Inl (KeyError token)
      | Some v \<Rightarrow> (case with_data d ts of Inl e \<Rightarrow> Inl e | Inr ps \<Rightarrow> Inr ((token, v) # ps)))"

definition sample_scenes ::
  "'s random_module \<Rightarrow> loader \<Rightarrow> int \<Rightarrow> int option \<Rightarrow> 's
     \<Rightarrow> (error + (string \<times> scene) list) \<times> 's" where
  "sample_scenes R L n random_seed g =
     (let g1 = reseed R random_seed g
      in case random_sample R (scene_tokens L) (min n (int (length (scene_tokens L)))) g1 of
           (Inl e, g2) \<Rightarrow> (Inl e, g2)
         | (Inr sample_tokens, g2) \<Rightarrow> (with_data (data L) sample_tokens, g2))"

subsection \<open>Floats\<close>

text \<open>
  A Python float is a double: a finite value, which is a real number, an infinity or
  NaN. (The sign of a zero is not kept: none of the operations below depends on it.)
  An operation on finite floats rounds its exact result to a double and overflows to
  an infinity when the result is too large: the rounding \<open>rnd\<close> is a parameter of
  the model; \<open>binary64\<close> below is the rounding of IEEE 754 doubles, which CPython
  uses. The other cases are those of IEEE 754.
\<close>

datatype pyfloat = Fin real | PosInf | NegInf | NaN

fun fneg :: "pyfloat \<Rightarrow> pyfloat" where
  "fneg (Fin x) = Fin (- x)"
| "fneg PosInf = NegInf"
| "fneg NegInf = PosInf"
| "fneg NaN = NaN"

fun fadd :: "(real \<Rightarrow> pyfloat) \<Rightarrow> pyfloat \<Rightarrow> pyfloat \<Rightarrow> pyfloat" where
  "fadd rnd (Fin x) (Fin y) = rnd (x + y)"
| "fadd rnd NaN b = NaN"
| "fadd rnd a NaN = NaN"
| "fadd rnd PosInf NegInf = NaN"
| "fadd rnd NegInf PosInf = NaN"
| "fadd rnd PosInf b = PosInf"
| "fadd rnd a PosInf = PosInf"
| "fadd rnd NegInf b = NegInf"
| "fadd rnd a NegInf = NegInf"

definition fsub :: "(real \<Rightarrow> pyfloat) \<Rightarrow> pyfloat \<Rightarrow> pyfloat \<Rightarrow> pyfloat" where
  "fsub rnd a b = fadd rnd a (fneg b)"

fun fmul :: "(real \<Rightarrow> pyfloat) \<Rightarrow> pyfloat \<Rightarrow> pyfloat \<Rightarrow> pyfloat" where
  "fmul rnd (Fin x) (Fin y) = rnd (x * y)"
| "fmul rnd NaN b = NaN"
| "fmul rnd a NaN = NaN"
| "fmul rnd (Fin x) PosInf = (if x = 0 then NaN else if 0 < x then PosInf else NegInf)"
| "fmul rnd (Fin x) NegInf = (if x = 0 then NaN else if 0 < x then NegInf else PosInf)"
| "fmul rnd PosInf (Fin y) = (if y = 0 then NaN else if 0 < y then PosInf else NegInf)"
| "fmul rnd NegInf (Fin y) = (if y = 0 then NaN else if 0 < y then NegInf else PosInf)"
| "fmul rnd PosInf PosInf = PosInf"
| "fmul rnd NegInf NegInf = PosInf"
| "fmul rnd PosInf NegInf = NegInf"
| "fmul rnd NegInf PosInf = NegInf"

fun fabs :: "pyfloat \<Rightarrow> pyfloat" where
  "fabs (Fin x) = Fin \<bar>x\<bar>"
| "fabs PosInf = PosInf"
| "fabs NegInf = PosInf"
| "fabs NaN = NaN"

text \<open>\<^verbatim>\<open>a > b\<close>: every comparison with NaN is false.\<close>

fun fgt :: "pyfloat \<Rightarrow> pyfloat \<Rightarrow> bool" where
  "fgt (Fin x) (Fin y) = (y < x)"
| "fgt NaN b = False"
| "fgt a NaN = False"
| "fgt PosInf PosInf = False"
| "fgt PosInf b = True"
| "fgt a PosInf = False"
| "fgt NegInf b = False"
| "fgt a NegInf = True"

text \<open>\<^verbatim>\<open>a >= 0.0\<close>.\<close>

fun nonneg :: "pyfloat \<Rightarrow> bool" where
  "nonneg (Fin x) = (0 \<le> x)"
| "nonneg PosInf = True"
| "nonneg NegInf = False"
| "nonneg NaN = False"

text \<open>
  \<^verbatim>\<open>int(x)\<close> of a float truncates towards zero; it raises \<^verbatim>\<open>OverflowError\<close> for an
  infinity and \<^verbatim>\<open>ValueError\<close> for NaN.
\<close>

definition trunc :: "real \<Rightarrow> int" where
  "trunc x = (if 0 \<le> x then \<lfloor>x\<rfloor> else \<lceil>x\<rceil>)"

fun py_int :: "pyfloat \<Rightarrow> error + int" where
  "py_int (Fin x) = Inr (trunc x)"
| "py_int PosInf = Inl (OverflowError ''cannot convert float infinity to integer'')"
| "py_int NegInf = Inl (OverflowError ''cannot convert float infinity to integer'')"
| "py_int NaN = Inl (ValueError ''cannot convert float NaN to integer'')"

text \<open>
  \<^verbatim>\<open>n * r\<close> for an int \<open>n\<close> and a float \<open>r\<close> first converts the int to the nearest
  float, which raises \<^verbatim>\<open>OverflowError\<close> when the int is too large for a double.
\<close>

definition int_times_float :: "(real \<Rightarrow> pyfloat) \<Rightarrow> int \<Rightarrow> pyfloat \<Rightarrow> error + pyfloat" where
  "int_times_float rnd n r =
     (case rnd (of_int n) of
        Fin a \<Rightarrow> Inr (fmul rnd (Fin a) r)
      | _ \<Rightarrow> Inl (OverflowError ''int too large to convert to float''))"

text \<open>
  The rounding of IEEE 754 binary64, to nearest with ties to even: a double has 53
  significant bits, its exponent is at least \<open>-1022\<close> (below, the doubles are
  subnormal, all multiples of \<open>2\<^sup>-\<^sup>1\<^sup>0\<^sup>7\<^sup>4\<close>), and a result that rounds to
  \<open>2\<^sup>1\<^sup>0\<^sup>2\<^sup>4\<close> or more in size overflows.
\<close>

definition round_half_even :: "real \<Rightarrow> int" where
  "round_half_even z =
     (let f = \<lfloor>z\<rfloor>
      in if z - of_int f < 1 / 2 then f
         else if 1 / 2 < z - of_int f then f + 1
         else if even f then f else f + 1)"

definition binary64 :: "real \<Rightarrow> pyfloat" where
  "binary64 x =
     (if x = 0 then Fin 0
      else
        let e = max \<lfloor>log 2 \<bar>x\<bar>\<rfloor> (- 1022);
            ulp = 2 powi (e - 52);
            y = of_int (round_half_even (x / ulp)) * ulp
        in if 2 ^ 1024 \<le> \<bar>y\<bar> then (if 0 < x then PosInf else NegInf) else Fin y)"

text \<open>Exact arithmetic is the rounding that changes nothing.\<close>

definition exact_rounding :: "real \<Rightarrow> pyfloat" where
  [simp]: "exact_rounding x = Fin x"

text \<open>
  What the properties below use of the rounding: it keeps the sign, leaves the integers
  up to \<open>2\<^sup>5\<^sup>3\<close> as they are, never gives NaN, does not overflow below
  \<open>2\<^sup>1\<^sup>0\<^sup>2\<^sup>3\<close>, and a finite result is off by at most the relative error
  \<open>2\<^sup>-\<^sup>5\<^sup>3\<close>, or by \<open>2\<^sup>-\<^sup>1\<^sup>0\<^sup>7\<^sup>5\<close> among the subnormal doubles.
\<close>

definition float_rounding :: "(real \<Rightarrow> pyfloat) \<Rightarrow> bool" where
  "float_rounding rnd \<longleftrightarrow>
     (\<forall>x. 0 \<le> x \<longrightarrow> nonneg (rnd x)) \<and>
     (\<forall>k::int. \<bar>k\<bar> \<le> 2 ^ 53 \<longrightarrow> rnd (of_int k) = Fin (of_int k)) \<and>
     (\<forall>x. rnd x \<noteq> NaN) \<and>
     (\<forall>x. \<bar>x\<bar> < 2 ^ 1023 \<longrightarrow> rnd x \<noteq> PosInf \<and> rnd x \<noteq> NegInf) \<and>
     (\<forall>x y. rnd x = Fin y \<longrightarrow> \<bar>y - x\<bar> \<le> \<bar>x\<bar> / 2 ^ 53 + 1 / 2 ^ 1075)"

subsection \<open>Splitter\<close>

text \<open>
  A slice \<^verbatim>\<open>xs[lo:hi]\<close>: a negative bound counts from the end, and every bound is
  clamped to the list; an omitted bound is \<open>None\<close>.
\<close>

definition slice_index :: "int \<Rightarrow> nat \<Rightarrow> nat" where
  "slice_index i n = (if i < 0 then nat (max (i + int n) 0) else min (nat i) n)"

definition py_slice :: "int option \<Rightarrow> int option \<Rightarrow> 'a list \<Rightarrow> 'a list" where
  "py_slice lo hi xs =
     (let n = length xs;
          a = (case lo of None \<Rightarrow> 0 | Some i \<Rightarrow> slice_index i n);
          b = (case hi of None \<Rightarrow> n | Some j \<Rightarrow> slice_index j n)
      in take (b - a) (drop a xs))"

text \<open>
  The test of line 190, \<^verbatim>\<open>abs(train_ratio + val_ratio + test_ratio - 1.0) > 1e-6\<close>:
  the sum is taken from the left, \<^verbatim>\<open>1.0\<close> is a double as it stands and \<^verbatim>\<open>1e-6\<close> is
  the double nearest to \<open>10\<^sup>-\<^sup>6\<close>.
\<close>

definition ratios_rejected :: "(real \<Rightarrow> pyfloat) \<Rightarrow> pyfloat \<Rightarrow> pyfloat \<Rightarrow> pyfloat \<Rightarrow> bool" where
  "ratios_rejected rnd train_ratio val_ratio test_ratio \<longleftrightarrow>
     fgt (fabs (fsub rnd (fadd rnd (fadd rnd train_ratio val_ratio) test_ratio) (Fin 1)))
       (rnd (1 / 10 ^ 6))"

text \<open>
  \<^verbatim>\<open>split_dataset\<close>. An exception of \<^verbatim>\<open>int(total_scenes * ratio)\<close> leaves the
  method after the shuffle, which has used the generator.
\<close>

definition split_dataset ::
  "'s random_module \<Rightarrow> (real \<Rightarrow> pyfloat) \<Rightarrow> loader \<Rightarrow> pyfloat \<Rightarrow> pyfloat \<Rightarrow> pyfloat
     \<Rightarrow> int option \<Rightarrow> 's \<Rightarrow> (error + string list \<times> string list \<times> string list) \<times> 's" where
  "split_dataset R rnd L train_ratio val_ratio test_ratio random_seed g =
     (if ratios_rejected rnd train_ratio val_ratio test_ratio
      then (Inl (ValueError ''Ratios must sum to 1.0''), g)
      else
        let g1 = reseed R random_seed g;
            (shuffled_tokens, g2) = shuffle R (scene_tokens L) g1;
            total_scenes = int (length shuffled_tokens)
        in case int_times_float rnd total_scenes train_ratio of
             Inl e \<Rightarrow> (Inl e, g2)
           | Inr p \<Rightarrow>
          (case py_int p of
             Inl e \<Rightarrow> (Inl e, g2)
           | Inr train_end \<Rightarrow>
          (case int_times_float rnd total_scenes val_ratio of
             Inl e \<Rightarrow> (Inl e, g2)
           | Inr q \<Rightarrow>
          (case py_int q of
             Inl e \<Rightarrow> (Inl e, g2)
           | Inr n \<Rightarrow>
               let val_end = train_end + n;
                   train_tokens = py_slice None (Some train_end) shuffled_tokens;
                   val_tokens = py_slice (Some train_end) (Some val_end) shuffled_tokens;
                   test_tokens = py_slice (Some val_end) None shuffled_tokens
               in (Inr (train_tokens, val_tokens, test_tokens), g2)))))"

text \<open>
  The specification's account of the split, for comparison with the code: it cuts the
  shuffled sequence at \<open>trainEnd = floor(total * trainRatio)\<close> and
  \<open>valEnd = trainEnd + floor(total * valRatio)\<close>, "using truncating integer
  division", and the slice \<open>[lo, hi)\<close> of a sequence holds its elements at the
  positions \<open>i\<close> with \<open>lo \<le> i < hi\<close>. \<open>spec_split_at\<close> cuts at two given products,
  \<open>spec_split\<close> at the products of the total and the ratios.
\<close>

definition index_range :: "int \<Rightarrow> int \<Rightarrow> 'a list \<Rightarrow> 'a list" where
  "index_range lo hi xs =
     map (\<lambda>i. xs ! i) (filter (\<lambda>i. lo \<le> int i \<and> int i < hi) [0..<length xs])"

definition spec_split_at :: "real \<Rightarrow> real \<Rightarrow> 'a list \<Rightarrow> 'a list \<times> 'a list \<times> 'a list" where
  "spec_split_at p q shuffled =
     (let total = int (length shuffled);
          trainEnd = trunc p;
          valEnd = trainEnd + trunc q
      in (index_range 0 trainEnd shuffled,
          index_range trainEnd valEnd shuffled,
          index_range valEnd total shuffled))"

definition spec_split :: "real \<Rightarrow> real \<Rightarrow> 'a list \<Rightarrow> 'a list \<times> 'a list \<times> 'a list" where
  "spec_split trainRatio valRatio shuffled =
     spec_split_at (real (length shuffled) * trainRatio) (real (length shuffled) * valRatio)
       shuffled"

subsection \<open>Exporter\<close>

text \<open>
  \<^verbatim>\<open>export_labels_only\<close> builds the dict \<^verbatim>\<open>labels_only\<close> and writes it as JSON;
  the model returns the dict (writing the file is outside the model).
\<close>

definition export_labels_only :: "loader \<Rightarrow> string list option \<Rightarrow> (string, string list) pydict" where
  "export_labels_only L tokens =
     (let scene_tokens = (case tokens of None \<Rightarrow> scene_tokens L | Some ts \<Rightarrow> ts)
      in foldl (\<lambda>labels_only token.
                 case map_of (data L) token of
                   None \<Rightarrow> labels_only
                 | Some d \<Rightarrow> AList.update token (labels d) labels_only)
           [] scene_tokens)"

subsection \<open>Examples\<close>

text \<open>
  The two-scene corpus of the specification's scenario, one of three scenes and one of
  four.
\<close>

definition example_data :: "(string, scene) pydict" where
  "example_data =
     [(''a'', \<lparr>labels = [''PED_CROSSING''], description = ''x''\<rparr>),
      (''b'', \<lparr>labels = [''INTERSECTION'', ''TRAFFIC_LIGHT''], description = ''y''\<rparr>)]"

definition example_corpus :: loader where
  "example_corpus = init example_data"

definition four_scenes_data :: "(string, scene) pydict" where
  "four_scenes_data =
     [(''a'', \<lparr>labels = [''PED_CROSSING''], description = ''x''\<rparr>),
      (''b'', \<lparr>labels = [''INTERSECTION'', ''TRAFFIC_LIGHT''], description = ''y''\<rparr>),
      (''c'', \<lparr>labels = [''LEFT_TURN''], description = []\<rparr>),
      (''d'', \<lparr>labels = [''PARKING_LOT'', ''NOT_A_LABEL''], description = ''z''\<rparr>)]"

definition four_scenes :: loader where
  "four_scenes = init four_scenes_data"

definition three_scenes :: loader where
  "three_scenes =
     init [(''a'', \<lparr>labels = [''PED_CROSSING''], description = ''x''\<rparr>),
           (''b'', \<lparr>labels = [''INTERSECTION'', ''TRAFFIC_LIGHT''], description = ''y''\<rparr>),
           (''c'', \<lparr>labels = [''LEFT_TURN''], description = []\<rparr>)]"

text \<open>
  A generator to run the examples with: its state is a counter, a shuffle rotates the
  list by the counter and a sample takes the first items of the rotated list.
\<close>

definition rotating :: "nat random_module" where
  "rotating =
     \<lparr>seed = (\<lambda>a. nat \<bar>a\<bar>),
      shuffle = (\<lambda>xs g. (rotate g xs, Suc g)),
      draw = (\<lambda>xs k g. (take k (rotate g xs), Suc g))\<rparr>"

text \<open>
  Some doubles: the one nearest to a third, written \<^verbatim>\<open>0.3333333333333333\<close>; the
  one next above \<^verbatim>\<open>1e-6\<close>, written \<^verbatim>\<open>1.0000000000000002e-06\<close>; and those
  written \<^verbatim>\<open>0.4999980926513672\<close> and \<^verbatim>\<open>9.073486328258778e-07\<close>.
\<close>

definition d_third :: real where
  "d_third = 6004799503160661 / 2 ^ 54"

definition d_above_tol :: real where
  "d_above_tol = 2361183241434823 / 2 ^ 71"

definition d_half_less :: real where
  "d_half_less = 262143 / 2 ^ 19"

definition d_rest :: real where
  "d_rest = 8569665543869043 / 2 ^ 73"

section \<open>Properties\<close>

subsection \<open>Label queries\<close>

lemma find_invalid_None:
  "set target \<subseteq> set ALL_SCENES \<Longrightarrow> find (\<lambda>label. label \<notin> set ALL_SCENES) target = None"
  by (auto simp: find_None_iff)

lemma ALL_SCENES_card: "card (set ALL_SCENES) = 10"
  by (simp add: ALL_SCENES_def DYNAMIC_SCENES_def STATIC_SCENES_def)

lemma example_labels_valid: "set [''INTERSECTION'', ''TRAFFIC_LIGHT''] \<subseteq> set ALL_SCENES"
  by (simp add: ALL_SCENES_def DYNAMIC_SCENES_def STATIC_SCENES_def)

lemma scene_matches_any:
  "scene_matches target ''any'' = (\<lambda>d. set (labels d) \<inter> set target \<noteq> {})"
  by (rule ext) (simp add: scene_matches_def)

lemma scene_matches_all:
  "scene_matches target ''all'' = (\<lambda>d. set target \<subseteq> set (labels d))"
  by (rule ext) (simp add: scene_matches_def)

lemma scene_matches_other:
  "mode \<noteq> ''any'' \<Longrightarrow> mode \<noteq> ''all'' \<Longrightarrow> scene_matches target mode = (\<lambda>d. False)"
  by (rule ext) (simp add: scene_matches_def)

text \<open>
  C4. The single-label query raises exactly when the label is none of the ten labels of
  \<^const>\<open>ALL_SCENES\<close>, and the message of the error names the label and the valid
  list; for a valid label it returns the (token, record) pairs whose labels contain the
  label, in the order of the corpus.
\<close>

theorem single_label_query:
  "get_scenes_by_label L label =
     (if label \<in> set ALL_SCENES
      then Inr (filter (\<lambda>(token, d). label \<in> set (labels d)) (data L))
      else Inl (ValueError
             (''Invalid label: '' @ label @ ''. Must be one of '' @ repr_list ALL_SCENES)))
   \<and> card (set ALL_SCENES) = 10"
  by (simp add: get_scenes_by_label_def invalid_label_def ALL_SCENES_card)

text \<open>
  C3. For valid labels, the multi-label query with mode \<^verbatim>\<open>"any"\<close> returns the
  records whose label set meets the given labels, with mode \<^verbatim>\<open>"all"\<close> the records
  whose label set includes them all, both in the order of the corpus; for no labels,
  \<^verbatim>\<open>"all"\<close> returns every record and \<^verbatim>\<open>"any"\<close> none.
\<close>

theorem multi_label_query:
  assumes "set target \<subseteq> set ALL_SCENES"
  shows "get_scenes_by_labels L target ''any'' =
           Inr (filter (\<lambda>(token, d). set (labels d) \<inter> set target \<noteq> {}) (data L))
       \<and> get_scenes_by_labels L target ''all'' =
           Inr (filter (\<lambda>(token, d). set target \<subseteq> set (labels d)) (data L))
       \<and> get_scenes_by_labels L [] ''all'' = Inr (data L)
       \<and> get_scenes_by_labels L [] ''any'' = Inr []"
  using find_invalid_None [OF assms]
  by (simp add: get_scenes_by_labels_def scene_matches_any scene_matches_all)

theorem multi_label_query_witness:
  "set [''INTERSECTION'', ''TRAFFIC_LIGHT''] \<subseteq> set ALL_SCENES
   \<and> get_scenes_by_labels example_corpus [''INTERSECTION'', ''TRAFFIC_LIGHT''] ''all'' =
       Inr [(''b'', \<lparr>labels = [''INTERSECTION'', ''TRAFFIC_LIGHT''], description = ''y''\<rparr>)]
   \<and> get_scenes_by_labels example_corpus [''INTERSECTION'', ''TRAFFIC_LIGHT''] ''any'' =
       Inr [(''b'', \<lparr>labels = [''INTERSECTION'', ''TRAFFIC_LIGHT''], description = ''y''\<rparr>)]
   \<and> get_scenes_by_labels example_corpus [] ''all'' = Inr (data example_corpus)
   \<and> get_scenes_by_labels example_corpus [] ''any'' = Inr []"
  using example_labels_valid multi_label_query [OF example_labels_valid, of example_corpus]
  by (simp add: example_corpus_def example_data_def init_def)

text \<open>
  C10. For valid labels and a mode that is neither \<^verbatim>\<open>"any"\<close> nor \<^verbatim>\<open>"all"\<close>
  (such as \<^verbatim>\<open>"ALL"\<close>), the multi-label query raises nothing and returns the empty
  list.
\<close>

theorem unknown_mode_matches_nothing:
  assumes "set target \<subseteq> set ALL_SCENES" and "mode \<noteq> ''any''" and "mode \<noteq> ''all''"
  shows "get_scenes_by_labels L target mode = Inr []"
  using find_invalid_None [OF assms(1)]
  by (simp add: get_scenes_by_labels_def scene_matches_other [OF assms(2,3)])

theorem unknown_mode_matches_nothing_witness:
  "set [''INTERSECTION'', ''TRAFFIC_LIGHT''] \<subseteq> set ALL_SCENES
   \<and> ''ALL'' \<noteq> ''any'' \<and> ''ALL'' \<noteq> ''all''
   \<and> get_scenes_by_labels example_corpus [''INTERSECTION'', ''TRAFFIC_LIGHT''] ''ALL'' = Inr []"
proof -
  have m: "''ALL'' \<noteq> ''any''" "''ALL'' \<noteq> ''all''"
    by simp_all
  show ?thesis
    using example_labels_valid m
      unknown_mode_matches_nothing [OF example_labels_valid m, of example_corpus]
    by blast
qed

subsection \<open>Statistics\<close>

lemma sum_counter_incr: "sum_list (map snd (counter_incr c k)) = sum_list (map snd c) + 1"
  unfolding counter_incr_def counter_get_def
  by (induction c) (auto split: option.splits)

lemma weighted_counter_incr:
  "(\<Sum>(k', v) \<leftarrow> counter_incr c k. k' * v) = (\<Sum>(k', v) \<leftarrow> c. k' * v) + k"
  unfolding counter_incr_def counter_get_def
  by (induction c) (auto split: option.splits simp: algebra_simps)

lemma sum_foldl_counter_incr:
  "sum_list (map snd (foldl counter_incr c ks)) = sum_list (map snd c) + int (length ks)"
  by (induction ks arbitrary: c) (simp_all add: sum_counter_incr)

lemma sum_label_loop:
  "sum_list (map snd (foldl (\<lambda>label_counts d. foldl counter_incr label_counts (labels d)) c ds))
     = sum_list (map snd c) + (\<Sum>d \<leftarrow> ds. int (length (labels d)))"
  by (induction ds arbitrary: c) (simp_all add: sum_foldl_counter_incr)

lemma weighted_histogram_loop:
  "(\<Sum>(k, v) \<leftarrow> foldl (\<lambda>multi_label_counts d.
              counter_incr multi_label_counts (int (length (labels d)))) c ds. k * v)
     = (\<Sum>(k, v) \<leftarrow> c. k * v) + (\<Sum>d \<leftarrow> ds. int (length (labels d)))"
  by (induction ds arbitrary: c) (simp_all add: weighted_counter_incr)

lemma sum_list_map_snd_labels:
  "(\<Sum>d \<leftarrow> map snd ds. int (length (labels d))) = (\<Sum>(token, d) \<leftarrow> ds. int (length (labels d)))"
  by (induction ds) auto

text \<open>
  C8. Whatever labels the records carry (no label is validated here), the occurrence
  counts of \<^const>\<open>get_label_statistics\<close> add up to the sum of the lengths of the
  records' label lists; and the histogram of \<^const>\<open>get_multi_label_statistics\<close>,
  each number of labels weighted by its count, adds up to the same total.
\<close>

theorem statistics_consistent:
  "sum_list (map snd (get_label_statistics L)) =
     (\<Sum>(token, d) \<leftarrow> data L. int (length (labels d)))
   \<and> (\<Sum>(k, v) \<leftarrow> get_multi_label_statistics L. k * v) =
     sum_list (map snd (get_label_statistics L))"
  by (simp add: get_label_statistics_def get_multi_label_statistics_def sum_label_loop
      weighted_histogram_loop sum_list_map_snd_labels del: map_map)

subsection \<open>Exporter\<close>

lemma export_loop_keys:
  "map fst (foldl (\<lambda>labels_only token.
                 case map_of dat token of
                   None \<Rightarrow> labels_only
                 | Some d \<Rightarrow> AList.update token (labels d) labels_only) [] ts)
     = rev (remdups (rev (filter (\<lambda>t. t \<in> set (map fst dat)) ts)))"
proof (induction ts rule: rev_induct)
  case Nil
  then show ?case by simp
next
  case (snoc t ts)
  show ?case
  proof (cases "map_of dat t")
    case None
    then have "t \<notin> set (map fst dat)"
      by (simp add: map_of_eq_None_iff)
    with None snoc show ?thesis by simp
  next
    case (Some d)
    then have "t \<in> set (map fst dat)"
      by (metis map_of_eq_None_iff option.distinct(1) set_map)
    with Some snoc show ?thesis
      by (simp add: update_keys)
  qed
qed

lemma export_loop_lookup:
  "map_of (foldl (\<lambda>labels_only token.
                 case map_of dat token of
                   None \<Rightarrow> labels_only
                 | Some d \<Rightarrow> AList.update token (labels d) labels_only) [] ts)
     = (\<lambda>t. if t \<in> set ts then map_option labels (map_of dat t) else None)"
proof (induction ts rule: rev_induct)
  case Nil
  then show ?case by simp
next
  case (snoc t ts)
  then show ?case
    by (cases "map_of dat t") (auto simp: update_conv' fun_eq_iff)
qed

text \<open>
  C9. The exported dict has as keys the requested tokens that are keys of the corpus,
  each once and in the order of its first request (a token that is no key is skipped,
  nothing is raised); read back as a mapping, it gives for each of them the
  \<^verbatim>\<open>labels\<close> list of its record and nothing for any other token. Without a token
  list, all tokens of the loader are exported.
\<close>

theorem export_labels_projection:
  "map fst (export_labels_only L (Some ts))
     = rev (remdups (rev (filter (\<lambda>t. t \<in> set (map fst (data L))) ts)))
   \<and> map_of (export_labels_only L (Some ts))
     = (\<lambda>t. if t \<in> set ts then map_option labels (map_of (data L) t) else None)
   \<and> export_labels_only L None = export_labels_only L (Some (scene_tokens L))"
  by (simp add: export_labels_only_def export_loop_keys export_loop_lookup)

subsection \<open>Rounding to a double\<close>

lemma exponent_eq:
  assumes "x \<noteq> 0" and "2 powi e \<le> \<bar>x\<bar>" and "\<bar>x\<bar> < 2 powi (e + 1)"
  shows "\<lfloor>log 2 \<bar>x\<bar>\<rfloor> = e"
proof -
  have "(2::real) powr (of_int e) = 2 powi e"
    by (simp add: powr_real_of_int')
  moreover have "(2::real) powr (of_int e + 1) = 2 powi (e + 1)"
    using powr_real_of_int' [of "2::real" "e + 1"] by simp
  moreover have "0 < \<bar>x\<bar>"
    using assms(1) by simp
  ultimately show ?thesis
    using assms(2,3) by (simp add: floor_log_eq_powr_iff)
qed

lemma exponent_bounds:
  assumes "x \<noteq> 0"
  shows "2 powi \<lfloor>log 2 \<bar>x\<bar>\<rfloor> \<le> \<bar>x\<bar>" and "\<bar>x\<bar> < 2 powi (\<lfloor>log 2 \<bar>x\<bar>\<rfloor> + 1)"
proof -
  define e where "e = \<lfloor>log 2 \<bar>x\<bar>\<rfloor>"
  have pos: "0 < \<bar>x\<bar>"
    using assms by simp
  have "2 powr (of_int e) \<le> \<bar>x\<bar> \<and> \<bar>x\<bar> < 2 powr (of_int e + 1)"
    using floor_log_eq_powr_iff [of "\<bar>x\<bar>" 2 e] pos by (simp add: e_def)
  moreover have "(2::real) powr (of_int e) = 2 powi e"
    by (simp add: powr_real_of_int')
  moreover have "(2::real) powr (of_int e + 1) = 2 powi (e + 1)"
    using powr_real_of_int' [of "2::real" "e + 1"] by simp
  ultimately show "2 powi \<lfloor>log 2 \<bar>x\<bar>\<rfloor> \<le> \<bar>x\<bar>" and "\<bar>x\<bar> < 2 powi (\<lfloor>log 2 \<bar>x\<bar>\<rfloor> + 1)"
    by (simp_all add: e_def)
qed

lemma round_half_even_error: "\<bar>of_int (round_half_even z) - z\<bar> \<le> 1 / 2"
proof -
  have "of_int \<lfloor>z\<rfloor> \<le> z" "z < of_int \<lfloor>z\<rfloor> + 1"
    by linarith+
  then show ?thesis
    by (auto simp: round_half_even_def Let_def)
qed

lemma round_half_even_nonneg: "0 \<le> z \<Longrightarrow> 0 \<le> round_half_even z"
  by (auto simp: round_half_even_def Let_def)

lemma round_half_even_of_int: "round_half_even (of_int m) = m"
  by (simp add: round_half_even_def)

lemma binary64_nonzero:
  assumes "x \<noteq> 0"
  shows "binary64 x =
    (let ulp = 2 powi (max \<lfloor>log 2 \<bar>x\<bar>\<rfloor> (- 1022) - 52);
         y = of_int (round_half_even (x / ulp)) * ulp
     in if 2 ^ 1024 \<le> \<bar>y\<bar> then (if 0 < x then PosInf else NegInf) else Fin y)"
  using assms by (simp add: binary64_def Let_def)

lemma binary64_sign: "0 \<le> x \<Longrightarrow> nonneg (binary64 x)"
proof (cases "x = 0")
  case True
  then show ?thesis by (simp add: binary64_def)
next
  case False
  assume "0 \<le> x"
  with False have pos: "0 < x" by simp
  define ulp :: real where "ulp = 2 powi (max \<lfloor>log 2 \<bar>x\<bar>\<rfloor> (- 1022) - 52)"
  define y where "y = of_int (round_half_even (x / ulp)) * ulp"
  have "0 < ulp"
    by (simp add: ulp_def)
  with pos have "0 \<le> x / ulp"
    by simp
  then have "0 \<le> round_half_even (x / ulp)"
    by (rule round_half_even_nonneg)
  with \<open>0 < ulp\<close> have "0 \<le> y"
    by (simp add: y_def)
  have "binary64 x = (if 2 ^ 1024 \<le> \<bar>y\<bar> then (if 0 < x then PosInf else NegInf) else Fin y)"
    unfolding binary64_nonzero [OF False] Let_def y_def ulp_def ..
  with pos \<open>0 \<le> y\<close> show ?thesis
    by (cases "2 ^ 1024 \<le> \<bar>y\<bar>") simp_all
qed

lemma binary64_not_NaN: "binary64 x \<noteq> NaN"
  by (simp add: binary64_def Let_def)

lemma binary64_distance:
  assumes "x \<noteq> 0"
  defines "ulp \<equiv> 2 powi (max \<lfloor>log 2 \<bar>x\<bar>\<rfloor> (- 1022) - 52)"
  shows "\<bar>of_int (round_half_even (x / ulp)) * ulp - x\<bar> \<le> ulp / 2"
proof -
  have u: "0 < ulp"
    by (simp add: ulp_def)
  have "of_int (round_half_even (x / ulp)) * ulp - x
      = (of_int (round_half_even (x / ulp)) - x / ulp) * ulp"
    using u by (simp add: field_simps)
  then have "\<bar>of_int (round_half_even (x / ulp)) * ulp - x\<bar>
      = \<bar>of_int (round_half_even (x / ulp)) - x / ulp\<bar> * ulp"
    using u by (simp add: abs_mult)
  also have "\<dots> \<le> (1 / 2) * ulp"
    using round_half_even_error [of "x / ulp"] u by (intro mult_right_mono) simp_all
  finally show ?thesis by simp
qed

lemma half_ulp_bound:
  fixes x :: real
  assumes "x \<noteq> 0"
  shows "2 powi (max \<lfloor>log 2 \<bar>x\<bar>\<rfloor> (- 1022) - 52) / 2 \<le> \<bar>x\<bar> / 2 ^ 53 + 1 / 2 ^ 1075"
proof (cases "- 1022 \<le> \<lfloor>log 2 \<bar>x\<bar>\<rfloor>")
  case True
  define e where "e = \<lfloor>log 2 \<bar>x\<bar>\<rfloor>"
  have "(2::real) powi (e - 52) / 2 = 2 powi e / 2 ^ 53"
    by (simp add: power_int_diff)
  also have "\<dots> \<le> \<bar>x\<bar> / 2 ^ 53"
    using exponent_bounds(1) [OF assms] by (simp add: e_def divide_right_mono)
  finally show ?thesis
    using True by (simp add: e_def max_absorb1)
next
  case False
  then have "max \<lfloor>log 2 \<bar>x\<bar>\<rfloor> (- 1022) = - 1022"
    by simp
  then show ?thesis by simp
qed

lemma binary64_error:
  assumes "binary64 x = Fin y"
  shows "\<bar>y - x\<bar> \<le> \<bar>x\<bar> / 2 ^ 53 + 1 / 2 ^ 1075"
proof (cases "x = 0")
  case True
  with assms show ?thesis by (simp add: binary64_def)
next
  case False
  define ulp :: real where "ulp = 2 powi (max \<lfloor>log 2 \<bar>x\<bar>\<rfloor> (- 1022) - 52)"
  from assms False have "y = of_int (round_half_even (x / ulp)) * ulp"
    by (simp add: binary64_nonzero Let_def ulp_def [symmetric] split: if_splits)
  then have "\<bar>y - x\<bar> \<le> ulp / 2"
    using binary64_distance [OF False] by (simp add: ulp_def)
  also have "\<dots> \<le> \<bar>x\<bar> / 2 ^ 53 + 1 / 2 ^ 1075"
    unfolding ulp_def by (rule half_ulp_bound [OF False])
  finally show ?thesis .
qed

lemma binary64_finite:
  assumes "\<bar>x\<bar> < 2 ^ 1023"
  shows "binary64 x \<noteq> PosInf \<and> binary64 x \<noteq> NegInf"
proof (cases "x = 0")
  case True
  then show ?thesis by (simp add: binary64_def)
next
  case False
  define e where "e = max \<lfloor>log 2 \<bar>x\<bar>\<rfloor> (- 1022)"
  define ulp :: real where "ulp = 2 powi (e - 52)"
  define y where "y = of_int (round_half_even (x / ulp)) * ulp"
  have "\<bar>x\<bar> < 2 powr 1023"
    using assms by simp
  then have "log 2 \<bar>x\<bar> < 1023"
    using False by (simp only: log_less_iff [of 2 "\<bar>x\<bar>" 1023])
  then have "\<lfloor>log 2 \<bar>x\<bar>\<rfloor> < 1023"
    by linarith
  then have "e \<le> 1022"
    by (simp add: e_def)
  then have "(2::real) powi (e - 52) \<le> 2 powi 970"
    by (intro power_int_increasing) simp_all
  then have "ulp / 2 \<le> 2 ^ 969"
    by (simp add: ulp_def)
  moreover have "\<bar>y - x\<bar> \<le> ulp / 2"
    using binary64_distance [OF False] by (simp add: y_def ulp_def e_def)
  ultimately have "\<bar>y\<bar> < 2 ^ 1023 + 2 ^ 969"
    using assms by linarith
  also have "\<dots> < (2::real) ^ 1024"
    by simp
  finally have small: "\<not> 2 ^ 1024 \<le> \<bar>y\<bar>"
    by simp
  have "binary64 x = (if 2 ^ 1024 \<le> \<bar>y\<bar> then (if 0 < x then PosInf else NegInf) else Fin y)"
    unfolding binary64_nonzero [OF False] Let_def y_def ulp_def e_def ..
  with small show ?thesis
    by simp
qed

lemma binary64_of_int:
  assumes "\<bar>k\<bar> \<le> 2 ^ 53"
  shows "binary64 (of_int k) = Fin (of_int k)"
proof (cases "k = 0")
  case True
  then show ?thesis by (simp add: binary64_def)
next
  case False
  define x :: real where "x = of_int k"
  have nz: "x \<noteq> 0"
    using False by (simp add: x_def)
  define e where "e = \<lfloor>log 2 \<bar>x\<bar>\<rfloor>"
  have lo: "2 powi e \<le> \<bar>x\<bar>" and hi: "\<bar>x\<bar> < 2 powi (e + 1)"
    using exponent_bounds [OF nz] by (simp_all add: e_def)
  have "1 \<le> \<bar>x\<bar>"
    using False by (simp add: x_def)
  with hi have one: "1 < (2::real) powi (e + 1)"
    by simp
  have e0: "0 \<le> e"
  proof (rule ccontr)
    assume "\<not> 0 \<le> e"
    then have "e + 1 \<le> 0"
      by simp
    then have "(2::real) powi (e + 1) \<le> 2 powi 0"
      by (intro power_int_increasing) simp_all
    with one show False
      by simp
  qed
  have x53: "\<bar>x\<bar> \<le> 2 ^ 53"
    using assms unfolding x_def by (metis of_int_abs of_int_le_numeral_power_cancel_iff)
  with lo have "(2::real) powi e \<le> 2 powi 53"
    by simp
  then have e53: "e \<le> 53"
    by (rule power_int_le_imp_le_exp [rotated]) simp_all
  define ulp :: real where "ulp = 2 powi (e - 52)"
  have emax: "max \<lfloor>log 2 \<bar>x\<bar>\<rfloor> (- 1022) = e"
    using e0 by (simp add: e_def)
  have "\<exists>m. x / ulp = of_int m"
  proof (cases "e \<le> 52")
    case True
    then have "x / ulp = of_int (k * 2 ^ nat (52 - e))"
      by (simp add: x_def ulp_def power_int_diff power_int_nonneg_exp field_simps
          flip: power_int_nonneg_exp)
    then show ?thesis ..
  next
    case False
    with e53 have e: "e = 53"
      by simp
    with lo x53 have "\<bar>x\<bar> = 2 ^ 53"
      by simp
    then have "x / ulp = of_int (if 0 < k then 2 ^ 52 else - (2 ^ 52))"
      using e by (auto simp: ulp_def x_def abs_if split: if_splits)
    then show ?thesis ..
  qed
  then obtain m where m: "x / ulp = of_int m" ..
  have u: "ulp \<noteq> 0"
    by (simp add: ulp_def)
  have y: "of_int (round_half_even (x / ulp)) * ulp = x"
    using m u by (simp add: round_half_even_of_int) (metis m nonzero_divide_eq_eq)
  have "\<bar>x\<bar> < 2 ^ 1024"
    using x53 by (rule le_less_trans) simp
  then show ?thesis
    unfolding x_def [symmetric] binary64_nonzero [OF nz] Let_def emax ulp_def [symmetric] y
    by simp
qed

lemma float_rounding_binary64: "float_rounding binary64"
  unfolding float_rounding_def
  using binary64_sign binary64_of_int binary64_not_NaN binary64_finite binary64_error
  by blast

lemma float_rounding_exact_arith: "float_rounding exact_rounding"
  by (simp add: float_rounding_def)

subsection \<open>Permutations\<close>

lemma mset_rotate: "mset (rotate n xs) = mset xs"
proof -
  have "mset (drop k xs @ take k xs) = mset (take k xs @ drop k xs)" for k
    by (simp only: mset_append add.commute)
  then show ?thesis
    by (simp only: rotate_drop_take append_take_drop_id)
qed

lemma mset_take_subseteq: "mset (take k xs) \<subseteq># mset xs"
  by (metis append_take_drop_id mset_append mset_subset_eq_add_left)

lemma distinct_mset_subseteq:
  assumes "mset ys \<subseteq># mset xs" and "distinct xs"
  shows "distinct ys"
proof -
  have "count (mset ys) a = (if a \<in> set ys then 1 else 0)" for a
  proof (cases "a \<in> set ys")
    case True
    then have "count (mset ys) a \<noteq> 0"
      by simp
    then have "1 \<le> count (mset ys) a"
      by linarith
    moreover have "count (mset ys) a \<le> count (mset xs) a"
      using assms(1) by (rule mset_subset_eq_count)
    moreover have "count (mset xs) a \<le> 1"
      using assms(2) by (simp add: distinct_count_atmost_1)
    ultimately have "count (mset ys) a = 1"
      by linarith
    with True show ?thesis by simp
  next
    case False
    then show ?thesis by simp
  qed
  then show ?thesis
    by (simp add: distinct_count_atmost_1)
qed

lemma mset_take_rotate: "mset (take k (rotate g xs)) \<subseteq># mset xs"
  using mset_take_subseteq [of k "rotate g xs"] by (simp only: mset_rotate)

lemma random_ok_rotating: "random_ok rotating"
  by (simp add: random_ok_def rotating_def mset_rotate mset_take_rotate)

lemma is_dict_four: "is_dict four_scenes_data"
  by (simp add: is_dict_def four_scenes_data_def)

subsection \<open>Sampler\<close>

lemma with_data_keys:
  assumes "set ts \<subseteq> set (map fst d)"
  shows "\<exists>ps. with_data d ts = Inr ps \<and> map fst ps = ts \<and> set ps \<subseteq> set d"
  using assms
proof (induction ts)
  case Nil
  then show ?case by simp
next
  case (Cons t ts)
  then obtain ps where ps: "with_data d ts = Inr ps" "map fst ps = ts" "set ps \<subseteq> set d"
    by auto
  from Cons.prems obtain v where v: "map_of d t = Some v"
    by (cases "map_of d t") (auto simp: map_of_eq_None_iff)
  then have "(t, v) \<in> set d"
    by (rule map_of_SomeD)
  with ps v show ?case by simp
qed

text \<open>
  C7, as amended. For a loaded corpus, a generator that keeps the library's promise and
  \<open>n \<ge> 0\<close>, the sampler returns \<open>min(n, corpusSize)\<close> pairs of the corpus with
  different tokens, hence all \<open>corpusSize\<close> of them when \<open>n\<close> is larger; with a
  seed given the result is the same from any state of the generator, and a second call
  gives what the first gave.
\<close>

theorem sample_scenes_distinct:
  assumes "random_ok R" and "is_dict d" and "0 \<le> n"
  shows "(\<exists>ps g'. sample_scenes R (init d) n sd g = (Inr ps, g')
            \<and> length ps = min (nat n) (length d)
            \<and> distinct (map fst ps) \<and> set ps \<subseteq> set d
            \<and> (int (length d) < n \<longrightarrow> length ps = length d))
       \<and> fst (sample_scenes R (init d) n (Some s) g) = fst (sample_scenes R (init d) n (Some s) g2)
       \<and> fst (sample_scenes R (init d) n (Some s) (snd (sample_scenes R (init d) n (Some s) g)))
           = fst (sample_scenes R (init d) n (Some s) g)"
proof (intro conjI)
  define toks where "toks = map fst d"
  define k where "k = nat (min n (int (length toks)))"
  have k: "k \<le> length toks" "k = min (nat n) (length d)"
    using assms(3) by (auto simp: k_def toks_def)
  obtain ys g' where ys: "draw R toks k (reseed R sd g) = (ys, g')"
    by (cases "draw R toks k (reseed R sd g)")
  have rs: "random_sample R toks (min n (int (length toks))) (reseed R sd g) = (Inr ys, g')"
    using assms(3) ys by (simp add: random_sample_def k_def)
  have "length (fst (draw R toks k (reseed R sd g))) = k
      \<and> mset (fst (draw R toks k (reseed R sd g))) \<subseteq># mset toks"
    using assms(1) k(1) unfolding random_ok_def by blast
  with ys have yl: "length ys = k" and sub: "mset ys \<subseteq># mset toks"
    by simp_all
  have "distinct toks"
    using assms(2) by (simp add: toks_def is_dict_def)
  with sub have dist: "distinct ys"
    by (rule distinct_mset_subseteq)
  from sub have "set ys \<subseteq> set toks"
    by (metis set_mset_mono set_mset_mset)
  then obtain ps where ps: "with_data d ys = Inr ps" "map fst ps = ys" "set ps \<subseteq> set d"
    using with_data_keys [of ys d] by (auto simp: toks_def)
  have res: "sample_scenes R (init d) n sd g = (Inr ps, g')"
    using rs ps(1) by (simp add: sample_scenes_def init_def toks_def [symmetric])
  have "length ps = length ys"
    using ps(2) by (metis length_map)
  with yl k(2) have len: "length ps = min (nat n) (length d)"
    by simp
  with res dist ps show "\<exists>ps g'. sample_scenes R (init d) n sd g = (Inr ps, g')
            \<and> length ps = min (nat n) (length d)
            \<and> distinct (map fst ps) \<and> set ps \<subseteq> set d
            \<and> (int (length d) < n \<longrightarrow> length ps = length d)"
    by (intro exI [of _ ps] exI [of _ g']) auto
next
  show "fst (sample_scenes R (init d) n (Some s) g) = fst (sample_scenes R (init d) n (Some s) g2)"
    by (simp add: sample_scenes_def reseed_def)
next
  show "fst (sample_scenes R (init d) n (Some s) (snd (sample_scenes R (init d) n (Some s) g)))
           = fst (sample_scenes R (init d) n (Some s) g)"
    by (simp add: sample_scenes_def reseed_def)
qed

theorem sample_scenes_distinct_witness:
  "random_ok rotating \<and> is_dict four_scenes_data \<and> (0::int) \<le> 7
   \<and> fst (sample_scenes rotating four_scenes 7 (Some 1) 0)
       = Inr [(''b'', \<lparr>labels = [''INTERSECTION'', ''TRAFFIC_LIGHT''], description = ''y''\<rparr>),
              (''c'', \<lparr>labels = [''LEFT_TURN''], description = []\<rparr>),
              (''d'', \<lparr>labels = [''PARKING_LOT'', ''NOT_A_LABEL''], description = ''z''\<rparr>),
              (''a'', \<lparr>labels = [''PED_CROSSING''], description = ''x''\<rparr>)]
   \<and> (\<exists>ps g'. sample_scenes rotating four_scenes 7 (Some 1) 0 = (Inr ps, g')
            \<and> length ps = min (nat 7) (length four_scenes_data)
            \<and> distinct (map fst ps) \<and> set ps \<subseteq> set four_scenes_data
            \<and> length ps = length four_scenes_data)
   \<and> fst (sample_scenes rotating four_scenes 7 (Some 1) 0)
       = fst (sample_scenes rotating four_scenes 7 (Some 1) 5)"
proof -
  have nn: "(0::int) \<le> 7"
    by simp
  have big: "int (length four_scenes_data) < 7"
    by (simp add: four_scenes_data_def)
  have run: "fst (sample_scenes rotating four_scenes 7 (Some 1) 0)
       = Inr [(''b'', \<lparr>labels = [''INTERSECTION'', ''TRAFFIC_LIGHT''], description = ''y''\<rparr>),
              (''c'', \<lparr>labels = [''LEFT_TURN''], description = []\<rparr>),
              (''d'', \<lparr>labels = [''PARKING_LOT'', ''NOT_A_LABEL''], description = ''z''\<rparr>),
              (''a'', \<lparr>labels = [''PED_CROSSING''], description = ''x''\<rparr>)]"
    by (simp add: sample_scenes_def random_sample_def reseed_def rotating_def four_scenes_def
        four_scenes_data_def init_def rotate1_def)
  show ?thesis
    using random_ok_rotating is_dict_four nn big run
      sample_scenes_distinct [OF random_ok_rotating is_dict_four nn, of "Some 1" 0 1 5]
    unfolding four_scenes_def by blast
qed

text \<open>
  For \<open>n = -1\<close> the sampler passes \<open>min(-1, 4) = -1\<close> to \<^verbatim>\<open>random.sample\<close>, which
  raises: no pairs are returned.
\<close>

theorem sample_scenes_counterexample:
  "fst (sample_scenes rotating four_scenes (-1) (Some 1) 0)
     = Inl (ValueError ''Sample larger than population or is negative'')"
  by (simp add: sample_scenes_def random_sample_def reseed_def rotating_def four_scenes_def
      four_scenes_data_def init_def)

subsection \<open>Slices\<close>

lemma py_slice_partition:
  assumes "0 \<le> a" and "0 \<le> c"
  shows "py_slice None (Some a) xs @ py_slice (Some a) (Some (a + c)) xs
           @ py_slice (Some (a + c)) None xs = xs"
proof -
  define i where "i = min (nat a) (length xs)"
  define j where "j = min (nat (a + c)) (length xs)"
  have ij: "i \<le> j" "j \<le> length xs"
    using assms by (auto simp: i_def j_def)
  have 1: "py_slice None (Some a) xs = take i xs"
    using assms by (simp add: py_slice_def slice_index_def i_def)
  have 2: "py_slice (Some a) (Some (a + c)) xs = take (j - i) (drop i xs)"
    using assms by (simp add: py_slice_def slice_index_def i_def j_def Let_def)
  have 3: "py_slice (Some (a + c)) None xs = drop j xs"
    using assms by (simp add: py_slice_def slice_index_def j_def)
  have "drop j xs = drop (j - i) (drop i xs)"
    using ij by simp
  then show ?thesis
    unfolding 1 2 3 by (metis append_take_drop_id)
qed

lemma filter_upt_interval:
  "filter (\<lambda>i. a \<le> i \<and> i < b) [0..<n] = [a..<min b n]"
proof (induction n)
  case 0
  then show ?case by simp
next
  case (Suc n)
  show ?case
  proof (cases "n < b")
    case True
    then have "min b (Suc n) = Suc n" "min b n = n"
      by simp_all
    with Suc True show ?thesis by simp
  next
    case False
    then have "min b (Suc n) = b" "min b n = b"
      by simp_all
    with Suc False show ?thesis by simp
  qed
qed

lemma map_nth_upt: "m \<le> length xs \<Longrightarrow> map (\<lambda>i. xs ! i) [a..<m] = take (m - a) (drop a xs)"
  by (rule nth_equalityI) auto

lemma index_range_nat:
  assumes "0 \<le> lo"
  shows "index_range lo hi xs
           = take (min (nat hi) (length xs) - nat lo) (drop (nat lo) xs)"
proof -
  have "(\<lambda>i. lo \<le> int i \<and> int i < hi) = (\<lambda>i. nat lo \<le> i \<and> i < nat hi)"
    using assms by (intro ext) auto
  then have "index_range lo hi xs = map (\<lambda>i. xs ! i) [nat lo..<min (nat hi) (length xs)]"
    by (simp add: index_range_def filter_upt_interval)
  then show ?thesis
    by (simp add: map_nth_upt)
qed

lemma index_range_slice:
  assumes "0 \<le> lo" and "0 \<le> hi"
  shows "index_range lo hi xs = py_slice (Some lo) (Some hi) xs"
proof (cases "nat lo \<le> length xs")
  case True
  then show ?thesis
    using assms by (simp add: index_range_nat py_slice_def slice_index_def Let_def min_absorb1)
next
  case False
  then show ?thesis
    using assms by (simp add: index_range_nat py_slice_def slice_index_def Let_def)
qed

lemma index_range_prefix:
  assumes "0 \<le> hi"
  shows "index_range 0 hi xs = py_slice None (Some hi) xs"
  using assms by (simp add: index_range_nat py_slice_def slice_index_def)

lemma index_range_suffix:
  assumes "0 \<le> lo"
  shows "index_range lo (int (length xs)) xs = py_slice (Some lo) None xs"
proof (cases "nat lo \<le> length xs")
  case True
  then show ?thesis
    using assms by (simp add: index_range_nat py_slice_def slice_index_def Let_def min_absorb1)
next
  case False
  then show ?thesis
    using assms by (simp add: index_range_nat py_slice_def slice_index_def Let_def)
qed


subsection \<open>Splitter\<close>

lemma rounded_cases:
  assumes "float_rounding rnd"
  obtains y where "rnd x = Fin y" | "rnd x = PosInf" | "rnd x = NegInf"
proof (cases "rnd x")
  case NaN
  with assms show ?thesis
    unfolding float_rounding_def by blast
qed auto

lemma float_rounding_int:
  assumes "float_rounding rnd" and "\<bar>k\<bar> \<le> 2 ^ 53"
  shows "rnd (of_int k) = Fin (of_int k)"
  using assms unfolding float_rounding_def by blast

lemma float_rounding_exact:
  assumes "float_rounding rnd"
  shows "rnd 0 = Fin 0" and "rnd 1 = Fin 1" and "rnd 2 = Fin 2"
  using float_rounding_int [OF assms, of 0] float_rounding_int [OF assms, of 1]
    float_rounding_int [OF assms, of 2]
  by simp_all

lemma float_rounding_nonneg:
  assumes "float_rounding rnd" and "0 \<le> x"
  shows "nonneg (rnd x)"
  using assms unfolding float_rounding_def by blast

lemma float_rounding_finite:
  assumes "float_rounding rnd" and "\<bar>x\<bar> < 2 ^ 1023"
  obtains y where "rnd x = Fin y"
  using assms rounded_cases [OF assms(1), of x] unfolding float_rounding_def by blast

lemma float_rounding_error:
  assumes "float_rounding rnd" and "rnd x = Fin y"
  shows "\<bar>y - x\<bar> \<le> (\<bar>x\<bar> + 1) / 2 ^ 53"
proof -
  have "\<bar>y - x\<bar> \<le> \<bar>x\<bar> / 2 ^ 53 + 1 / 2 ^ 1075"
    using assms unfolding float_rounding_def by blast
  moreover have "(1::real) / 2 ^ 1075 \<le> 1 / 2 ^ 53"
    by (intro divide_left_mono power_increasing) simp_all
  ultimately show ?thesis
    by (simp add: add_divide_distrib)
qed

lemma trunc_nonneg: "0 \<le> x \<Longrightarrow> 0 \<le> trunc x \<and> trunc x = \<lfloor>x\<rfloor>"
  by (simp add: trunc_def)

lemma product_nonneg:
  assumes "float_rounding rnd" and "nonneg r"
    and "int_times_float rnd (int n) r = Inr (Fin p)"
  shows "0 \<le> p"
proof -
  from assms(3) obtain a where a: "rnd (of_int (int n)) = Fin a"
    and prod: "fmul rnd (Fin a) r = Fin p"
    by (auto simp: int_times_float_def split: pyfloat.splits)
  have "nonneg (rnd (of_int (int n)))"
    using assms(1) by (rule float_rounding_nonneg) simp
  with a have a0: "0 \<le> a"
    by simp
  show ?thesis
  proof (cases r)
    case (Fin x)
    with assms(2) have "0 \<le> a * x"
      using a0 by simp
    then have "nonneg (rnd (a * x))"
      using assms(1) by (intro float_rounding_nonneg)
    with prod Fin show ?thesis
      by simp
  next
    case PosInf
    with prod show ?thesis
      by (simp split: if_splits)
  next
    case NegInf
    with assms(2) show ?thesis by simp
  next
    case NaN
    with assms(2) show ?thesis by simp
  qed
qed

lemma split_dataset_accepted:
  assumes "\<not> ratios_rejected rnd tr va te"
    and "int_times_float rnd (int (length (fst (shuffle R (scene_tokens L) (reseed R sd g))))) tr
           = Inr (Fin p)"
    and "int_times_float rnd (int (length (fst (shuffle R (scene_tokens L) (reseed R sd g))))) va
           = Inr (Fin q)"
  shows "split_dataset R rnd L tr va te sd g =
    (let sh = fst (shuffle R (scene_tokens L) (reseed R sd g))
     in (Inr (py_slice None (Some (trunc p)) sh,
              py_slice (Some (trunc p)) (Some (trunc p + trunc q)) sh,
              py_slice (Some (trunc p + trunc q)) None sh),
         snd (shuffle R (scene_tokens L) (reseed R sd g))))"
proof (cases "shuffle R (scene_tokens L) (reseed R sd g)")
  case (Pair sh g2)
  with assms show ?thesis
    by (simp add: split_dataset_def Let_def)
qed

lemma shuffle_length:
  assumes "random_ok R"
  shows "length (fst (shuffle R xs g)) = length xs"
proof -
  have "mset (fst (shuffle R xs g)) = mset xs"
    using assms unfolding random_ok_def by blast
  then show ?thesis
    by (rule mset_eq_length)
qed

text \<open>
  C1, as amended. For a loaded corpus, a generator that keeps the library's promise and
  ratios that pass the validation, of which the train and the val ratio are not
  negative and have finite products with the size of the corpus, the split returns
  three token lists that are disjoint in pairs, hold together every token of the
  corpus, and whose lengths add up to the size of the corpus.
\<close>

theorem split_partition:
  assumes "random_ok R" and "float_rounding rnd" and "is_dict d"
    and "\<not> ratios_rejected rnd tr va te" and "nonneg tr" and "nonneg va"
    and "int_times_float rnd (int (length d)) tr = Inr (Fin p)"
    and "int_times_float rnd (int (length d)) va = Inr (Fin q)"
  shows "\<exists>train val test g'.
           split_dataset R rnd (init d) tr va te sd g = (Inr (train, val, test), g')
         \<and> set train \<inter> set val = {} \<and> set train \<inter> set test = {} \<and> set val \<inter> set test = {}
         \<and> set train \<union> set val \<union> set test = set (scene_tokens (init d))
         \<and> length train + length val + length test = length (data (init d))
         \<and> mset (train @ val @ test) = mset (scene_tokens (init d))"
proof -
  define toks where "toks = scene_tokens (init d)"
  define sh where "sh = fst (shuffle R toks (reseed R sd g))"
  define g' where "g' = snd (shuffle R toks (reseed R sd g))"
  define a where "a = trunc p"
  define c where "c = trunc q"
  define train where "train = py_slice None (Some a) sh"
  define val where "val = py_slice (Some a) (Some (a + c)) sh"
  define test where "test = py_slice (Some (a + c)) None sh"
  have lt: "length toks = length d"
    by (simp add: toks_def init_def)
  have ls: "length sh = length d"
    using shuffle_length [OF assms(1)] lt by (simp add: sh_def)
  have res: "split_dataset R rnd (init d) tr va te sd g = (Inr (train, val, test), g')"
    using split_dataset_accepted [of rnd tr va te R "init d" sd g p q] assms(4,7,8) ls
    by (simp add: toks_def [symmetric] sh_def [symmetric] Let_def a_def c_def train_def
        val_def test_def g'_def)
  have "0 \<le> p" "0 \<le> q"
    using product_nonneg [OF assms(2,5,7)] product_nonneg [OF assms(2,6,8)] by simp_all
  then have "0 \<le> a" "0 \<le> c"
    by (simp_all add: a_def c_def trunc_nonneg)
  then have cat: "train @ val @ test = sh"
    unfolding train_def val_def test_def by (rule py_slice_partition)
  have perm: "mset sh = mset toks"
    using assms(1) unfolding random_ok_def sh_def by blast
  have "distinct toks"
    using assms(3) by (simp add: toks_def init_def is_dict_def)
  with perm have "distinct sh"
    by (metis mset_eq_imp_distinct_iff)
  with cat have dist: "distinct (train @ val @ test)"
    by simp
  have sets: "set train \<union> set val \<union> set test = set toks"
    using cat perm by (metis mset_eq_setD set_append Un_assoc)
  have len: "length train + length val + length test = length toks"
    using cat perm by (metis mset_eq_length length_append add.assoc)
  have "length toks = length (data (init d))"
    by (simp add: toks_def init_def)
  with res dist sets len cat perm show ?thesis
    unfolding toks_def [symmetric]
    by (intro exI [of _ train] exI [of _ val] exI [of _ test] exI [of _ g']) auto
qed

theorem split_partition_witness:
  "random_ok rotating \<and> float_rounding exact_rounding \<and> is_dict four_scenes_data
   \<and> \<not> ratios_rejected exact_rounding (Fin (1/2)) (Fin (1/4)) (Fin (1/4))
   \<and> nonneg (Fin (1/2)) \<and> nonneg (Fin (1/4))
   \<and> int_times_float exact_rounding (int (length four_scenes_data)) (Fin (1/2)) = Inr (Fin 2)
   \<and> int_times_float exact_rounding (int (length four_scenes_data)) (Fin (1/4)) = Inr (Fin 1)
   \<and> split_dataset rotating exact_rounding four_scenes (Fin (1/2)) (Fin (1/4)) (Fin (1/4)) (Some 1) 0
        = (Inr ([''b'', ''c''], [''d''], [''a'']), 2)
   \<and> (\<exists>train val test g'.
         split_dataset rotating exact_rounding four_scenes (Fin (1/2)) (Fin (1/4)) (Fin (1/4)) (Some 1) 0
           = (Inr (train, val, test), g')
         \<and> set train \<inter> set val = {} \<and> set train \<inter> set test = {} \<and> set val \<inter> set test = {}
         \<and> set train \<union> set val \<union> set test = set (scene_tokens four_scenes)
         \<and> length train + length val + length test = length (data four_scenes)
         \<and> mset (train @ val @ test) = mset (scene_tokens four_scenes))"
proof -
  have ok: "\<not> ratios_rejected exact_rounding (Fin (1/2)) (Fin (1/4)) (Fin (1/4))"
    by (simp add: ratios_rejected_def fsub_def)
  have nn: "nonneg (Fin (1/2))" "nonneg (Fin (1/4))"
    by simp_all
  have pr: "int_times_float exact_rounding (int (length four_scenes_data)) (Fin (1/2)) = Inr (Fin 2)"
    "int_times_float exact_rounding (int (length four_scenes_data)) (Fin (1/4)) = Inr (Fin 1)"
    by (simp_all add: int_times_float_def four_scenes_data_def)
  have run: "split_dataset rotating exact_rounding four_scenes (Fin (1/2)) (Fin (1/4)) (Fin (1/4)) (Some 1) 0
        = (Inr ([''b'', ''c''], [''d''], [''a'']), 2)"
    using ok
    by (simp add: split_dataset_def reseed_def rotating_def four_scenes_def four_scenes_data_def
        init_def int_times_float_def trunc_def py_slice_def slice_index_def rotate1_def)
  show ?thesis
    using random_ok_rotating float_rounding_exact_arith is_dict_four ok nn pr run
      split_partition [OF random_ok_rotating float_rounding_exact_arith is_dict_four ok nn pr,
        of "Some 1" 0]
    unfolding four_scenes_def by blast
qed

text \<open>
  The ratios \<open>(-0.25, 0.75, 0.5)\<close> add up to 1.0 and pass the validation. On four
  tokens \<^verbatim>\<open>train_end\<close> is \<open>-1\<close> and \<^verbatim>\<open>val_end\<close> is \<open>2\<close>: the slice
  \<^verbatim>\<open>[:-1]\<close> holds the first three tokens and the slice \<^verbatim>\<open>[2:]\<close> the last two, so
  the third token is in the train and in the test list, and the lengths add up to five.
  The ratios \<open>(inf, 0.0, -inf)\<close> pass the validation too, their sum being NaN, with
  a train and a val ratio that are not negative; \<^verbatim>\<open>int(4 * inf)\<close> then raises
  \<^verbatim>\<open>OverflowError\<close> and no lists are returned.
\<close>

theorem split_partition_counterexample:
  "\<not> ratios_rejected exact_rounding (Fin (-1/4)) (Fin (3/4)) (Fin (1/2))
   \<and> fst (split_dataset rotating exact_rounding four_scenes (Fin (-1/4)) (Fin (3/4)) (Fin (1/2)) (Some 1) 0)
       = Inr ([''b'', ''c'', ''d''], [], [''d'', ''a''])
   \<and> set [''b'', ''c'', ''d''] \<inter> set [''d'', ''a''] \<noteq> {}
   \<and> length [''b'', ''c'', ''d''] + length ([] :: string list) + length [''d'', ''a'']
       \<noteq> length (data four_scenes)
   \<and> \<not> ratios_rejected exact_rounding PosInf (Fin 0) NegInf
   \<and> nonneg PosInf \<and> nonneg (Fin 0)
   \<and> fst (split_dataset rotating exact_rounding four_scenes PosInf (Fin 0) NegInf (Some 1) 0)
       = Inl (OverflowError ''cannot convert float infinity to integer'')"
proof -
  have ok: "\<not> ratios_rejected exact_rounding (Fin (-1/4)) (Fin (3/4)) (Fin (1/2))"
    by (simp add: ratios_rejected_def fsub_def)
  have ok2: "\<not> ratios_rejected exact_rounding PosInf (Fin 0) NegInf"
    by (simp add: ratios_rejected_def fsub_def)
  have neg: "fst (split_dataset rotating exact_rounding four_scenes (Fin (-1/4)) (Fin (3/4)) (Fin (1/2)) (Some 1) 0)
       = Inr ([''b'', ''c'', ''d''], [], [''d'', ''a''])"
    using ok
    by (simp add: split_dataset_def reseed_def rotating_def four_scenes_def four_scenes_data_def
        init_def int_times_float_def trunc_def py_slice_def slice_index_def rotate1_def ceiling_def)
  have inf: "fst (split_dataset rotating exact_rounding four_scenes PosInf (Fin 0) NegInf (Some 1) 0)
       = Inl (OverflowError ''cannot convert float infinity to integer'')"
    using ok2
    by (simp add: split_dataset_def reseed_def rotating_def four_scenes_def four_scenes_data_def
        init_def int_times_float_def)
  show ?thesis
    using ok ok2 neg inf by (simp add: four_scenes_def four_scenes_data_def init_def)
qed

text \<open>
  C2. With a seed given, the split is a function of the seed, the ratios and the corpus:
  it is the same from any two states of the generator, and a second call gives what
  the first gave.
\<close>

theorem split_deterministic:
  "fst (split_dataset R rnd L tr va te (Some s) g) = fst (split_dataset R rnd L tr va te (Some s) g')
   \<and> fst (split_dataset R rnd L tr va te (Some s) (snd (split_dataset R rnd L tr va te (Some s) g)))
       = fst (split_dataset R rnd L tr va te (Some s) g)"
  by (simp add: split_dataset_def reseed_def Let_def split: prod.splits sum.splits)

lemma ratios_half_half_accepted:
  assumes "float_rounding rnd"
  shows "\<not> ratios_rejected rnd (Fin (1/2)) (Fin (1/2)) (Fin 0)"
proof -
  have "nonneg (rnd (1 / 10 ^ 6))"
    using assms by (rule float_rounding_nonneg) simp
  then have "\<not> fgt (Fin 0) (rnd (1 / 10 ^ 6))"
    by (cases "rnd (1 / 10 ^ 6)") simp_all
  then show ?thesis
    by (simp add: ratios_rejected_def fsub_def float_rounding_exact [OF assms])
qed

lemma two_times_half:
  assumes "float_rounding rnd"
  shows "int_times_float rnd 2 (Fin (1/2)) = Inr (Fin 1)"
  by (simp add: int_times_float_def float_rounding_exact [OF assms])

text \<open>
  C5, as amended. For ratios that pass the validation, of which the train and the val
  ratio are not negative and have finite products \<open>p\<close> and \<open>q\<close> with the total
  (the products the floats give, rounded), the split returns the slices
  \<open>[0, trainEnd)\<close>, \<open>[trainEnd, valEnd)\<close> and \<open>[valEnd, total)\<close> of the
  shuffled tokens, with \<open>trainEnd = floor(p)\<close> and \<open>valEnd = trainEnd + floor(q)\<close>;
  and on a corpus of two tokens the ratios \<open>(0.5, 0.5, 0.0)\<close> give lists of the
  sizes 1, 1 and 0, from any seed and any state of the generator.
\<close>

theorem split_slices:
  assumes "random_ok R" and "float_rounding rnd"
  shows "(\<not> ratios_rejected rnd tr va te \<and> nonneg tr \<and> nonneg va
           \<and> int_times_float rnd (int (length (scene_tokens L))) tr = Inr (Fin p)
           \<and> int_times_float rnd (int (length (scene_tokens L))) va = Inr (Fin q) \<longrightarrow>
            fst (split_dataset R rnd L tr va te sd g)
              = Inr (spec_split_at p q (fst (shuffle R (scene_tokens L) (reseed R sd g))))
            \<and> trunc p = \<lfloor>p\<rfloor> \<and> trunc q = \<lfloor>q\<rfloor>)
       \<and> (length (scene_tokens L) = 2 \<longrightarrow>
            (\<exists>train val test.
               fst (split_dataset R rnd L (Fin (1/2)) (Fin (1/2)) (Fin 0) sd g)
                 = Inr (train, val, test)
               \<and> length train = 1 \<and> length val = 1 \<and> length test = 0))"
proof (intro conjI impI)
  define sh where "sh = fst (shuffle R (scene_tokens L) (reseed R sd g))"
  have ls: "length sh = length (scene_tokens L)"
    using shuffle_length [OF assms(1)] by (simp add: sh_def)
  {
    assume h: "\<not> ratios_rejected rnd tr va te \<and> nonneg tr \<and> nonneg va
           \<and> int_times_float rnd (int (length (scene_tokens L))) tr = Inr (Fin p)
           \<and> int_times_float rnd (int (length (scene_tokens L))) va = Inr (Fin q)"
    have nn: "0 \<le> p" "0 \<le> q"
      using h product_nonneg [OF assms(2), of tr "length (scene_tokens L)" p]
        product_nonneg [OF assms(2), of va "length (scene_tokens L)" q]
      by simp_all
    then have fl: "0 \<le> trunc p" "0 \<le> trunc q"
      by (simp_all add: trunc_nonneg)
    show "trunc p = \<lfloor>p\<rfloor>" "trunc q = \<lfloor>q\<rfloor>"
      using nn by (simp_all add: trunc_nonneg)
    have "fst (split_dataset R rnd L tr va te sd g)
        = Inr (py_slice None (Some (trunc p)) sh,
               py_slice (Some (trunc p)) (Some (trunc p + trunc q)) sh,
               py_slice (Some (trunc p + trunc q)) None sh)"
      using split_dataset_accepted [of rnd tr va te R L sd g p q] h ls
      by (simp add: sh_def [symmetric] Let_def)
    also have "\<dots> = Inr (index_range 0 (trunc p) sh,
               index_range (trunc p) (trunc p + trunc q) sh,
               index_range (trunc p + trunc q) (int (length sh)) sh)"
      using fl index_range_prefix [of "trunc p" sh]
        index_range_slice [of "trunc p" "trunc p + trunc q" sh]
        index_range_suffix [of "trunc p + trunc q" sh]
      by simp
    also have "\<dots> = Inr (spec_split_at p q sh)"
      by (simp add: spec_split_at_def Let_def)
    finally show "fst (split_dataset R rnd L tr va te sd g)
              = Inr (spec_split_at p q (fst (shuffle R (scene_tokens L) (reseed R sd g))))"
      by (simp add: sh_def)
  }
  {
    assume two: "length (scene_tokens L) = 2"
    then have len: "length sh = 2"
      using ls by simp
    have "fst (split_dataset R rnd L (Fin (1/2)) (Fin (1/2)) (Fin 0) sd g)
        = Inr (py_slice None (Some 1) sh, py_slice (Some 1) (Some 2) sh, py_slice (Some 2) None sh)"
      using split_dataset_accepted [of rnd "Fin (1/2)" "Fin (1/2)" "Fin 0" R L sd g 1 1]
        ratios_half_half_accepted [OF assms(2)] two_times_half [OF assms(2)] len
      by (simp add: sh_def [symmetric] Let_def trunc_def)
    moreover have "length (py_slice None (Some 1) sh) = 1"
      "length (py_slice (Some 1) (Some 2) sh) = 1" "length (py_slice (Some 2) None sh) = 0"
      using len by (simp_all add: py_slice_def slice_index_def)
    ultimately show "\<exists>train val test.
               fst (split_dataset R rnd L (Fin (1/2)) (Fin (1/2)) (Fin 0) sd g)
                 = Inr (train, val, test)
               \<and> length train = 1 \<and> length val = 1 \<and> length test = 0"
      by blast
  }
qed

lemma binary64_at:
  assumes "2 powi e \<le> \<bar>x\<bar>" and "\<bar>x\<bar> < 2 powi (e + 1)" and "- 1022 \<le> e"
    and "\<bar>of_int (round_half_even (x / 2 powi (e - 52))) * 2 powi (e - 52)\<bar> < (2::real) ^ 1024"
  shows "binary64 x = Fin (of_int (round_half_even (x / 2 powi (e - 52))) * 2 powi (e - 52))"
proof -
  have "0 < (2::real) powi e"
    by simp
  with assms(1) have "0 < \<bar>x\<bar>"
    by linarith
  then have nz: "x \<noteq> 0"
    by simp
  have "\<lfloor>log 2 \<bar>x\<bar>\<rfloor> = e"
    using nz assms(1,2) by (rule exponent_eq)
  with assms(3) have "max \<lfloor>log 2 \<bar>x\<bar>\<rfloor> (- 1022) = e"
    by simp
  with nz assms(4) show ?thesis
    by (simp add: binary64_def Let_def)
qed

lemma binary64_small_ints:
  "binary64 0 = Fin 0" "binary64 1 = Fin 1" "binary64 2 = Fin 2" "binary64 3 = Fin 3"
  using binary64_of_int [of 0] binary64_of_int [of 1] binary64_of_int [of 2]
    binary64_of_int [of 3]
  by simp_all

lemma binary64_tolerance: "binary64 (1 / 10 ^ 6) = Fin (4722366482869645 / 2 ^ 72)"
  using binary64_at [of "-20" "1 / 10 ^ 6"]
  by (simp add: round_half_even_def)

lemma binary64_tolerance_num: "binary64 (1 / 1000000) = Fin (4722366482869645 / 2 ^ 72)"
  using binary64_tolerance by simp

lemma binary64_two_thirds: "binary64 (2 * d_third) = Fin (2 * d_third)"
  using binary64_at [of "-1" "2 * d_third"]
  by (simp add: round_half_even_def d_third_def)

lemma binary64_three_times_third: "binary64 (3 * d_third) = Fin 1"
  using binary64_at [of "-1" "3 * d_third"]
  by (simp add: round_half_even_def d_third_def)

theorem split_slices_witness:
  "random_ok rotating \<and> float_rounding exact_rounding
   \<and> \<not> ratios_rejected exact_rounding (Fin (1/2)) (Fin (1/2)) (Fin 0) \<and> nonneg (Fin (1/2))
   \<and> int_times_float exact_rounding (int (length (scene_tokens example_corpus))) (Fin (1/2))
       = Inr (Fin 1)
   \<and> length (scene_tokens example_corpus) = 2
   \<and> fst (split_dataset rotating exact_rounding example_corpus (Fin (1/2)) (Fin (1/2)) (Fin 0) (Some 1) 0)
       = Inr (spec_split_at 1 1
               (fst (shuffle rotating (scene_tokens example_corpus) (reseed rotating (Some 1) 0))))
   \<and> trunc 1 = \<lfloor>1 :: real\<rfloor>
   \<and> fst (split_dataset rotating exact_rounding example_corpus (Fin (1/2)) (Fin (1/2)) (Fin 0) (Some 1) 0)
       = Inr ([''b''], [''a''], [])
   \<and> (\<exists>train val test.
         fst (split_dataset rotating exact_rounding example_corpus (Fin (1/2)) (Fin (1/2)) (Fin 0) (Some 1) 0)
           = Inr (train, val, test)
         \<and> length train = 1 \<and> length val = 1 \<and> length test = 0)"
proof -
  have ok: "\<not> ratios_rejected exact_rounding (Fin (1/2)) (Fin (1/2)) (Fin 0)"
    by (simp add: ratios_rejected_def fsub_def)
  have nn: "nonneg (Fin (1/2))"
    by simp
  have len: "length (scene_tokens example_corpus) = 2"
    by (simp add: example_corpus_def example_data_def init_def)
  have pr: "int_times_float exact_rounding (int (length (scene_tokens example_corpus))) (Fin (1/2))
       = Inr (Fin 1)"
    by (simp add: len int_times_float_def)
  have run: "fst (split_dataset rotating exact_rounding example_corpus (Fin (1/2)) (Fin (1/2)) (Fin 0) (Some 1) 0)
       = Inr ([''b''], [''a''], [])"
    using ok
    by (simp add: split_dataset_def reseed_def rotating_def example_corpus_def example_data_def
        init_def int_times_float_def trunc_def py_slice_def slice_index_def rotate1_def)
  show ?thesis
    using random_ok_rotating float_rounding_exact_arith ok nn len pr run
      split_slices [OF random_ok_rotating float_rounding_exact_arith,
        of "Fin (1/2)" "Fin (1/2)" "Fin 0" example_corpus 1 1 "Some 1" 0]
    by blast
qed

text \<open>
  Three inputs that pass the validation. With \<open>(-0.25, 0.75, 0.5)\<close> on four tokens
  the products are \<open>-1\<close> and \<open>3\<close>, whole numbers, so that floor and truncation
  agree: the slice \<^verbatim>\<open>[:-1]\<close> of the code holds three tokens where \<open>[0, -1)\<close> is
  empty. With the double \<^verbatim>\<open>0.3333333333333333\<close> for each ratio on three tokens, the
  product \<^verbatim>\<open>3 * 0.3333333333333333\<close> of the floats rounds to 1.0 and the code cuts at
  1 and 2, while the product of the numbers is below 1 and the cuts of the
  specification are 0 and 0. With \<open>(inf, 0.0, -inf)\<close> the code raises
  \<^verbatim>\<open>OverflowError\<close>.
\<close>

theorem split_slices_counterexample:
  "\<not> ratios_rejected exact_rounding (Fin (-1/4)) (Fin (3/4)) (Fin (1/2))
   \<and> fst (split_dataset rotating exact_rounding four_scenes (Fin (-1/4)) (Fin (3/4)) (Fin (1/2)) (Some 1) 0)
       = Inr ([''b'', ''c'', ''d''], [], [''d'', ''a''])
   \<and> spec_split (-1/4) (3/4)
        (fst (shuffle rotating (scene_tokens four_scenes) (reseed rotating (Some 1) 0)))
       = ([], [''b'', ''c''], [''d'', ''a''])
   \<and> \<not> ratios_rejected binary64 (Fin d_third) (Fin d_third) (Fin d_third)
   \<and> fst (split_dataset rotating binary64 three_scenes (Fin d_third) (Fin d_third) (Fin d_third) (Some 1) 0)
       = Inr ([''b''], [''c''], [''a''])
   \<and> spec_split d_third d_third
        (fst (shuffle rotating (scene_tokens three_scenes) (reseed rotating (Some 1) 0)))
       = ([], [], [''b'', ''c'', ''a''])
   \<and> \<not> ratios_rejected exact_rounding PosInf (Fin 0) NegInf
   \<and> fst (split_dataset rotating exact_rounding four_scenes PosInf (Fin 0) NegInf (Some 1) 0)
       = Inl (OverflowError ''cannot convert float infinity to integer'')"
proof -
  have ok: "\<not> ratios_rejected exact_rounding (Fin (-1/4)) (Fin (3/4)) (Fin (1/2))"
    by (simp add: ratios_rejected_def fsub_def)
  have neg: "fst (split_dataset rotating exact_rounding four_scenes (Fin (-1/4)) (Fin (3/4)) (Fin (1/2)) (Some 1) 0)
       = Inr ([''b'', ''c'', ''d''], [], [''d'', ''a''])"
    using ok
    by (simp add: split_dataset_def reseed_def rotating_def four_scenes_def four_scenes_data_def
        init_def int_times_float_def trunc_def py_slice_def slice_index_def rotate1_def ceiling_def)
  have sh4: "fst (shuffle rotating (scene_tokens four_scenes) (reseed rotating (Some 1) 0))
      = [''b'', ''c'', ''d'', ''a'']"
    by (simp add: reseed_def rotating_def four_scenes_def four_scenes_data_def init_def rotate1_def)
  have spec_neg: "spec_split (-1/4) (3/4) [''b'', ''c'', ''d'', ''a'']
       = ([], [''b'', ''c''], [''d'', ''a''])"
    by (simp add: spec_split_def spec_split_at_def index_range_def trunc_def ceiling_def upt_rec)
  have ok64: "\<not> ratios_rejected binary64 (Fin d_third) (Fin d_third) (Fin d_third)"
    by (simp add: ratios_rejected_def fsub_def binary64_two_thirds binary64_three_times_third
        binary64_small_ints binary64_tolerance_num)
  have r64: "fst (split_dataset rotating binary64 three_scenes (Fin d_third) (Fin d_third) (Fin d_third) (Some 1) 0)
       = Inr ([''b''], [''c''], [''a''])"
    using ok64
    by (simp add: split_dataset_def reseed_def rotating_def three_scenes_def
        init_def int_times_float_def binary64_small_ints binary64_three_times_third
        trunc_def py_slice_def slice_index_def rotate1_def)
  have sh3: "fst (shuffle rotating (scene_tokens three_scenes) (reseed rotating (Some 1) 0))
      = [''b'', ''c'', ''a'']"
    by (simp add: reseed_def rotating_def three_scenes_def init_def rotate1_def)
  have fl: "\<lfloor>3 * d_third\<rfloor> = 0" and pos: "0 \<le> 3 * d_third"
    by (simp_all add: d_third_def)
  have spec64: "spec_split d_third d_third [''b'', ''c'', ''a''] = ([], [], [''b'', ''c'', ''a''])"
    using fl pos
    by (simp add: spec_split_def spec_split_at_def index_range_def trunc_def upt_rec)
  have ok2: "\<not> ratios_rejected exact_rounding PosInf (Fin 0) NegInf"
    by (simp add: ratios_rejected_def fsub_def)
  have inf: "fst (split_dataset rotating exact_rounding four_scenes PosInf (Fin 0) NegInf (Some 1) 0)
       = Inl (OverflowError ''cannot convert float infinity to integer'')"
    using ok2
    by (simp add: split_dataset_def reseed_def rotating_def four_scenes_def four_scenes_data_def
        init_def int_times_float_def)
  show ?thesis
    unfolding sh4 sh3 using ok neg spec_neg ok64 r64 spec64 ok2 inf by blast
qed

subsection \<open>Validation of the ratios\<close>

lemma float_rounding_tolerance:
  assumes "float_rounding rnd"
  obtains T where "rnd (1 / 10 ^ 6) = Fin T" and "\<bar>T - 1 / 10 ^ 6\<bar> \<le> 2 / 2 ^ 53"
proof -
  have "\<bar>1 / 10 ^ 6 :: real\<bar> < 2 ^ 1023"
    by (rule less_le_trans [of _ 1]) simp_all
  then obtain T where T: "rnd (1 / 10 ^ 6) = Fin T"
    using float_rounding_finite [OF assms] by blast
  have "\<bar>T - 1 / 10 ^ 6\<bar> \<le> (\<bar>1 / 10 ^ 6\<bar> + 1) / 2 ^ 53"
    using assms T by (rule float_rounding_error)
  also have "\<dots> \<le> 2 / 2 ^ 53"
    by (intro divide_right_mono) simp_all
  finally show ?thesis
    using T that by blast
qed

lemma rejected_infinite:
  assumes "float_rounding rnd" and "s = PosInf \<or> s = NegInf"
  shows "fgt (fabs (fsub rnd s (Fin 1))) (rnd (1 / 10 ^ 6))"
proof -
  obtain T where "rnd (1 / 10 ^ 6) = Fin T"
    using float_rounding_tolerance [OF assms(1)] by blast
  with assms(2) show ?thesis
    by (auto simp: fsub_def)
qed

lemma rounded_sum:
  assumes "float_rounding rnd"
  obtains y where "fadd rnd (Fin x1) (Fin x2) = Fin y"
      and "\<bar>y - (x1 + x2)\<bar> \<le> (\<bar>x1 + x2\<bar> + 1) / 2 ^ 53"
    | "fadd rnd (Fin x1) (Fin x2) = PosInf \<or> fadd rnd (Fin x1) (Fin x2) = NegInf"
  using rounded_cases [OF assms, of "x1 + x2"] float_rounding_error [OF assms, of "x1 + x2"]
  by (metis fadd.simps(1))

lemma ratios_rejected_far:
  assumes r: "float_rounding rnd"
    and far: "1 / 10 ^ 6 + (\<bar>t\<bar> + \<bar>v\<bar> + \<bar>w\<bar> + 1) / 2 ^ 50 < \<bar>t + v + w - 1\<bar>"
  shows "ratios_rejected rnd (Fin t) (Fin v) (Fin w)"
proof -
  define M where "M = \<bar>t\<bar> + \<bar>v\<bar> + \<bar>w\<bar> + 1"
  define U where "U = M / 2 ^ 53"
  have M1: "1 \<le> M"
    by (simp add: M_def)
  have U: "0 < U" "4 * U \<le> M" "8 * U = M / 2 ^ 50" "1 / 2 ^ 53 \<le> U"
    using M1 by (simp_all add: U_def divide_right_mono)
  obtain T where T: "rnd (1 / 10 ^ 6) = Fin T" and eT: "\<bar>T - 1 / 10 ^ 6\<bar> \<le> 2 / 2 ^ 53"
    using float_rounding_tolerance [OF r] by blast
  from eT U(4) have eT': "\<bar>T - 1 / 10 ^ 6\<bar> \<le> 2 * U"
    by linarith
  show ?thesis
  proof (rule rounded_sum [OF r, of t v])
    assume "fadd rnd (Fin t) (Fin v) = PosInf \<or> fadd rnd (Fin t) (Fin v) = NegInf"
    then have "fadd rnd (fadd rnd (Fin t) (Fin v)) (Fin w) = PosInf
        \<or> fadd rnd (fadd rnd (Fin t) (Fin v)) (Fin w) = NegInf"
      by auto
    then show ?thesis
      unfolding ratios_rejected_def by (rule rejected_infinite [OF r])
  next
    fix a
    assume a: "fadd rnd (Fin t) (Fin v) = Fin a"
      and ea: "\<bar>a - (t + v)\<bar> \<le> (\<bar>t + v\<bar> + 1) / 2 ^ 53"
    have "(\<bar>t + v\<bar> + 1) / 2 ^ 53 \<le> M / 2 ^ 53"
      by (intro divide_right_mono) (simp_all add: M_def)
    with ea have ea': "\<bar>a - (t + v)\<bar> \<le> U"
      by (simp add: U_def)
    show ?thesis
    proof (rule rounded_sum [OF r, of a w])
      assume "fadd rnd (Fin a) (Fin w) = PosInf \<or> fadd rnd (Fin a) (Fin w) = NegInf"
      then show ?thesis
        unfolding ratios_rejected_def a by (rule rejected_infinite [OF r])
    next
      fix b
      assume b: "fadd rnd (Fin a) (Fin w) = Fin b"
        and eb: "\<bar>b - (a + w)\<bar> \<le> (\<bar>a + w\<bar> + 1) / 2 ^ 53"
      have "\<bar>a + w\<bar> + 1 \<le> 2 * M"
        using ea' U(2) M1 by (simp add: M_def)
      then have "(\<bar>a + w\<bar> + 1) / 2 ^ 53 \<le> 2 * M / 2 ^ 53"
        by (intro divide_right_mono) simp_all
      with eb have eb': "\<bar>b - (a + w)\<bar> \<le> 2 * U"
        by (simp add: U_def)
      show ?thesis
      proof (rule rounded_sum [OF r, of b "- 1"])
        assume "fadd rnd (Fin b) (Fin (- 1)) = PosInf \<or> fadd rnd (Fin b) (Fin (- 1)) = NegInf"
        then have "fsub rnd (Fin b) (Fin 1) = PosInf \<or> fsub rnd (Fin b) (Fin 1) = NegInf"
          by (simp add: fsub_def)
        with T show ?thesis
          unfolding ratios_rejected_def a b by auto
      next
        fix c
        assume c: "fadd rnd (Fin b) (Fin (- 1)) = Fin c"
          and ec: "\<bar>c - (b + - 1)\<bar> \<le> (\<bar>b + - 1\<bar> + 1) / 2 ^ 53"
        have "\<bar>b + - 1\<bar> + 1 \<le> 3 * M"
          using ea' eb' U(2) M1 by (simp add: M_def)
        then have "(\<bar>b + - 1\<bar> + 1) / 2 ^ 53 \<le> 3 * M / 2 ^ 53"
          by (intro divide_right_mono) simp_all
        with ec have ec': "\<bar>c - (b + - 1)\<bar> \<le> 3 * U"
          by (simp add: U_def)
        have "1 / 10 ^ 6 + 8 * U < \<bar>t + v + w - 1\<bar>"
          using far by (simp add: U(3) M_def)
        with ea' eb' ec' eT' have "T < \<bar>c\<bar>"
          by linarith
        moreover have "fabs (fsub rnd (fadd rnd (fadd rnd (Fin t) (Fin v)) (Fin w)) (Fin 1))
            = Fin \<bar>c\<bar>"
          by (simp only: fsub_def fneg.simps a b c fabs.simps)
        ultimately show ?thesis
          by (simp only: ratios_rejected_def T fgt.simps)
      qed
    qed
  qed
qed

lemma rounded_sum_finite:
  assumes "float_rounding rnd" and "\<bar>x1 + x2\<bar> < 2 ^ 1023"
  obtains y where "fadd rnd (Fin x1) (Fin x2) = Fin y"
      and "\<bar>y - (x1 + x2)\<bar> \<le> (\<bar>x1 + x2\<bar> + 1) / 2 ^ 53"
  using float_rounding_finite [OF assms] float_rounding_error [OF assms(1), of "x1 + x2"]
  by (metis fadd.simps(1))

lemma ratios_accepted_near:
  assumes r: "float_rounding rnd"
    and near: "\<bar>t + v + w - 1\<bar> \<le> 1 / 10 ^ 6 - (\<bar>t\<bar> + \<bar>v\<bar> + \<bar>w\<bar> + 1) / 2 ^ 50"
  shows "\<not> ratios_rejected rnd (Fin t) (Fin v) (Fin w)"
proof -
  define M where "M = \<bar>t\<bar> + \<bar>v\<bar> + \<bar>w\<bar> + 1"
  define U where "U = M / 2 ^ 53"
  have M1: "1 \<le> M"
    by (simp add: M_def)
  have U: "0 < U" "4 * U \<le> M" "8 * U = M / 2 ^ 50" "1 / 2 ^ 53 \<le> U"
    using M1 by (simp_all add: U_def divide_right_mono)
  have "0 \<le> \<bar>t + v + w - 1\<bar>"
    by simp
  with near have "M / 2 ^ 50 \<le> 1 / 10 ^ 6"
    unfolding M_def by linarith
  then have "M \<le> 2 ^ 50 / 10 ^ 6"
    by (simp add: field_simps)
  also have "\<dots> < (2::real) ^ 31"
    by simp
  finally have M31: "M < 2 ^ 31" .
  have "3 * M < 2 ^ 33"
    using M31 by simp
  also have "(2::real) ^ 33 < 2 ^ 1023"
    by (rule power_strict_increasing) simp_all
  finally have M3: "3 * M < 2 ^ 1023" .
  have lim: "x < 2 ^ 1023" if "x \<le> 3 * M" for x
    using that M3 by (rule le_less_trans)
  obtain T where T: "rnd (1 / 10 ^ 6) = Fin T" and eT: "\<bar>T - 1 / 10 ^ 6\<bar> \<le> 2 / 2 ^ 53"
    using float_rounding_tolerance [OF r] by blast
  from eT U(4) have eT': "\<bar>T - 1 / 10 ^ 6\<bar> \<le> 2 * U"
    by linarith
  have "\<bar>t + v\<bar> \<le> M"
    by (simp add: M_def)
  with M1 have "\<bar>t + v\<bar> \<le> 3 * M"
    by linarith
  then have "\<bar>t + v\<bar> < 2 ^ 1023"
    by (rule lim)
  then obtain a where a: "fadd rnd (Fin t) (Fin v) = Fin a"
    and ea: "\<bar>a - (t + v)\<bar> \<le> (\<bar>t + v\<bar> + 1) / 2 ^ 53"
    by (rule rounded_sum_finite [OF r])
  have "(\<bar>t + v\<bar> + 1) / 2 ^ 53 \<le> M / 2 ^ 53"
    by (intro divide_right_mono) (simp_all add: M_def)
  with ea have ea': "\<bar>a - (t + v)\<bar> \<le> U"
    by (simp add: U_def)
  have aw: "\<bar>a + w\<bar> + 1 \<le> 2 * M"
    using ea' U(2) M1 by (simp add: M_def)
  with M1 have "\<bar>a + w\<bar> \<le> 3 * M"
    by linarith
  then have "\<bar>a + w\<bar> < 2 ^ 1023"
    by (rule lim)
  then obtain b where b: "fadd rnd (Fin a) (Fin w) = Fin b"
    and eb: "\<bar>b - (a + w)\<bar> \<le> (\<bar>a + w\<bar> + 1) / 2 ^ 53"
    by (rule rounded_sum_finite [OF r])
  from aw have "(\<bar>a + w\<bar> + 1) / 2 ^ 53 \<le> 2 * M / 2 ^ 53"
    by (intro divide_right_mono) simp_all
  with eb have eb': "\<bar>b - (a + w)\<bar> \<le> 2 * U"
    by (simp add: U_def)
  have b1: "\<bar>b + - 1\<bar> + 1 \<le> 3 * M"
    using ea' eb' U(2) M1 by (simp add: M_def)
  then have "\<bar>b + - 1\<bar> \<le> 3 * M"
    by linarith
  then have "\<bar>b + - 1\<bar> < 2 ^ 1023"
    by (rule lim)
  then obtain c where c: "fadd rnd (Fin b) (Fin (- 1)) = Fin c"
    and ec: "\<bar>c - (b + - 1)\<bar> \<le> (\<bar>b + - 1\<bar> + 1) / 2 ^ 53"
    by (rule rounded_sum_finite [OF r])
  from b1 have "(\<bar>b + - 1\<bar> + 1) / 2 ^ 53 \<le> 3 * M / 2 ^ 53"
    by (intro divide_right_mono) simp_all
  with ec have ec': "\<bar>c - (b + - 1)\<bar> \<le> 3 * U"
    by (simp add: U_def)
  have "\<bar>t + v + w - 1\<bar> \<le> 1 / 10 ^ 6 - 8 * U"
    using near by (simp add: U(3) M_def)
  with ea' eb' ec' eT' have le: "\<not> T < \<bar>c\<bar>"
    by linarith
  have eq: "fabs (fsub rnd (fadd rnd (fadd rnd (Fin t) (Fin v)) (Fin w)) (Fin 1))
      = Fin \<bar>c\<bar>"
    by (simp only: fsub_def fneg.simps a b c fabs.simps)
  show ?thesis
    unfolding ratios_rejected_def eq T using le by simp
qed

lemma accepted_no_ratio_error:
  assumes "\<not> ratios_rejected rnd tr va te"
  shows "fst (split_dataset R rnd L tr va te sd g) \<noteq> Inl (ValueError ''Ratios must sum to 1.0'')"
proof -
  have p: "py_int p \<noteq> Inl (ValueError ''Ratios must sum to 1.0'')" for p
    by (cases p) simp_all
  have m: "int_times_float rnd n r \<noteq> Inl (ValueError ''Ratios must sum to 1.0'')" for n r
    by (simp add: int_times_float_def split: pyfloat.splits)
  show ?thesis
    using assms p m
    by (auto simp: split_dataset_def Let_def split: prod.splits sum.splits)
qed

text \<open>
  C6, as amended. For finite ratios \<open>t\<close>, \<open>v\<close> and \<open>w\<close>, with the margin
  \<open>(\<bar>t\<bar> + \<bar>v\<bar> + \<bar>w\<bar> + 1) / 2\<^sup>5\<^sup>0\<close> for the rounding of the floats: when the
  sum of the ratios is further from 1.0 than the tolerance \<open>10\<^sup>-\<^sup>6\<close> plus the
  margin, the split raises the \<^verbatim>\<open>ValueError\<close> of the validation and returns no token
  list; when it is within the tolerance less the margin, that error is not raised.
\<close>

theorem ratio_validation:
  assumes "float_rounding rnd"
  shows "(1 / 10 ^ 6 + (\<bar>t\<bar> + \<bar>v\<bar> + \<bar>w\<bar> + 1) / 2 ^ 50 < \<bar>t + v + w - 1\<bar> \<longrightarrow>
            split_dataset R rnd L (Fin t) (Fin v) (Fin w) sd g
              = (Inl (ValueError ''Ratios must sum to 1.0''), g))
       \<and> (\<bar>t + v + w - 1\<bar> \<le> 1 / 10 ^ 6 - (\<bar>t\<bar> + \<bar>v\<bar> + \<bar>w\<bar> + 1) / 2 ^ 50 \<longrightarrow>
            fst (split_dataset R rnd L (Fin t) (Fin v) (Fin w) sd g)
              \<noteq> Inl (ValueError ''Ratios must sum to 1.0''))"
proof (intro conjI impI)
  assume "1 / 10 ^ 6 + (\<bar>t\<bar> + \<bar>v\<bar> + \<bar>w\<bar> + 1) / 2 ^ 50 < \<bar>t + v + w - 1\<bar>"
  with assms have "ratios_rejected rnd (Fin t) (Fin v) (Fin w)"
    by (rule ratios_rejected_far)
  then show "split_dataset R rnd L (Fin t) (Fin v) (Fin w) sd g
      = (Inl (ValueError ''Ratios must sum to 1.0''), g)"
    by (simp add: split_dataset_def)
next
  assume "\<bar>t + v + w - 1\<bar> \<le> 1 / 10 ^ 6 - (\<bar>t\<bar> + \<bar>v\<bar> + \<bar>w\<bar> + 1) / 2 ^ 50"
  with assms have "\<not> ratios_rejected rnd (Fin t) (Fin v) (Fin w)"
    by (rule ratios_accepted_near)
  then show "fst (split_dataset R rnd L (Fin t) (Fin v) (Fin w) sd g)
      \<noteq> Inl (ValueError ''Ratios must sum to 1.0'')"
    by (rule accepted_no_ratio_error)
qed

theorem ratio_validation_witness:
  "float_rounding binary64
   \<and> 1 / 10 ^ 6 + (\<bar>1/2\<bar> + \<bar>3/10\<bar> + \<bar>3/10\<bar> + 1) / 2 ^ 50 < \<bar>1/2 + 3/10 + 3/10 - 1 :: real\<bar>
   \<and> split_dataset rotating binary64 example_corpus (Fin (1/2)) (Fin (3/10)) (Fin (3/10)) None 0
       = (Inl (ValueError ''Ratios must sum to 1.0''), 0)
   \<and> \<bar>1/2 + 1/2 + 0 - 1 :: real\<bar> \<le> 1 / 10 ^ 6 - (\<bar>1/2\<bar> + \<bar>1/2\<bar> + \<bar>0\<bar> + 1) / 2 ^ 50
   \<and> fst (split_dataset rotating binary64 example_corpus (Fin (1/2)) (Fin (1/2)) (Fin 0) None 0)
       \<noteq> Inl (ValueError ''Ratios must sum to 1.0'')"
proof -
  have far: "1 / 10 ^ 6 + (\<bar>1/2\<bar> + \<bar>3/10\<bar> + \<bar>3/10\<bar> + 1) / 2 ^ 50 < \<bar>1/2 + 3/10 + 3/10 - 1 :: real\<bar>"
    by simp
  have near: "\<bar>1/2 + 1/2 + 0 - 1 :: real\<bar> \<le> 1 / 10 ^ 6 - (\<bar>1/2\<bar> + \<bar>1/2\<bar> + \<bar>0\<bar> + 1) / 2 ^ 50"
    by simp
  show ?thesis
    using float_rounding_binary64 far near
      ratio_validation [OF float_rounding_binary64, of "1/2" "3/10" "3/10" rotating example_corpus None 0]
      ratio_validation [OF float_rounding_binary64, of "1/2" "1/2" 0 rotating example_corpus None 0]
    by blast
qed

lemma two_tokens_half_half:
  assumes "\<not> ratios_rejected binary64 (Fin (1/2)) (Fin (1/2)) w"
  shows "fst (split_dataset rotating binary64 example_corpus (Fin (1/2)) (Fin (1/2)) w (Some 1) 0)
    = Inr ([''b''], [''a''], [])"
  using assms
  by (simp add: split_dataset_def reseed_def rotating_def example_corpus_def example_data_def
      init_def int_times_float_def binary64_small_ints trunc_def py_slice_def slice_index_def
      rotate1_def)

text \<open>
  Two inputs in double arithmetic, on the corpus of two tokens. The sum of
  \<open>(0.5, 0.5, 1.0000000000000002e-06)\<close> is further from 1.0 than \<open>10\<^sup>-\<^sup>6\<close>, yet
  the floats add up to \<open>1 + 4503599627 / 2\<^sup>5\<^sup>2\<close>, which is within the double
  \<^verbatim>\<open>1e-6\<close> of 1.0: the split is returned. The sum of
  \<open>(0.5, 0.4999980926513672, 9.073486328258778e-07)\<close> is within \<open>10\<^sup>-\<^sup>6\<close> of 1.0,
  yet the floats add up to \<open>1 - 9007199255 / 2\<^sup>5\<^sup>3\<close>, which is not: the error is
  raised.
\<close>

theorem ratio_validation_counterexample:
  "1 / 10 ^ 6 < \<bar>1/2 + 1/2 + d_above_tol - 1\<bar>
   \<and> fst (split_dataset rotating binary64 example_corpus
          (Fin (1/2)) (Fin (1/2)) (Fin d_above_tol) (Some 1) 0)
       = Inr ([''b''], [''a''], [])
   \<and> \<bar>1/2 + d_half_less + d_rest - 1\<bar> \<le> 1 / 10 ^ 6
   \<and> fst (split_dataset rotating binary64 example_corpus
          (Fin (1/2)) (Fin d_half_less) (Fin d_rest) (Some 1) 0)
       = Inl (ValueError ''Ratios must sum to 1.0'')"
proof -
  define s :: real where "s = 4503604130970123 / 2 ^ 52"
  define s1 :: real where "s1 = 524287 / 2 ^ 19"
  define s2 :: real where "s2 = 9007190247541737 / 2 ^ 53"
  have out: "1 / 10 ^ 6 < \<bar>1/2 + 1/2 + d_above_tol - 1\<bar>"
    by (simp add: d_above_tol_def)
  have a1: "binary64 (1 + d_above_tol) = Fin s"
    using binary64_at [of 0 "1 + d_above_tol"]
    by (simp add: round_half_even_def d_above_tol_def s_def)
  have a2: "binary64 (s - 1) = Fin (4503599627 / 2 ^ 52)"
    using binary64_at [of "-20" "s - 1"]
    by (simp add: round_half_even_def s_def)
  have acc: "\<not> ratios_rejected binary64 (Fin (1/2)) (Fin (1/2)) (Fin d_above_tol)"
    by (simp add: ratios_rejected_def fsub_def binary64_small_ints a1 a2 binary64_tolerance_num)
  have "in": "\<bar>1/2 + d_half_less + d_rest - 1\<bar> \<le> 1 / 10 ^ 6"
    by (simp add: d_half_less_def d_rest_def)
  have b1: "binary64 (1/2 + d_half_less) = Fin s1"
    using binary64_at [of "-1" "1/2 + d_half_less"]
    by (simp add: round_half_even_def d_half_less_def s1_def)
  have b2: "binary64 (s1 + d_rest) = Fin s2"
    using binary64_at [of "-1" "s1 + d_rest"]
    by (simp add: round_half_even_def d_rest_def s1_def s2_def)
  have b3: "binary64 (s2 - 1) = Fin (- (9007199255 / 2 ^ 53))"
    using binary64_at [of "-20" "s2 - 1"]
    by (simp add: round_half_even_def s2_def)
  have rej: "ratios_rejected binary64 (Fin (1/2)) (Fin d_half_less) (Fin d_rest)"
    by (simp add: ratios_rejected_def fsub_def b1 b2 b3 binary64_tolerance_num)
  have r2: "fst (split_dataset rotating binary64 example_corpus
          (Fin (1/2)) (Fin d_half_less) (Fin d_rest) (Some 1) 0)
       = Inl (ValueError ''Ratios must sum to 1.0'')"
    using rej by (simp add: split_dataset_def)
  show ?thesis
    using out two_tokens_half_half [OF acc] "in" r2 by blast
qed

end
